theory Spec2Isabelle
  imports Main
begin

section \<open>Python strings\<close>

text \<open>
  The program is \<^verbatim>\<open>src/main.py\<close>. A Python \<^verbatim>\<open>str\<close> is modelled as a \<^typ>\<open>string\<close>, and a
  \<^typ>\<open>char\<close> stands for the code point of the same number, so the model covers the strings
  over U+0000 .. U+00FF. The three character tables below are the ones of Python's Unicode
  database on that range: \<^verbatim>\<open>str.isspace\<close> (which is also what \<^verbatim>\<open>\s\<close> matches in a \<^verbatim>\<open>str\<close>
  pattern and what \<^verbatim>\<open>str.strip()\<close> removes), \<^verbatim>\<open>str.isalnum\<close> (with the underscore, what
  \<^verbatim>\<open>\w\<close> matches) and \<^verbatim>\<open>str.lower\<close>, which maps every code point of the range to one
  code point of the range.
\<close>

definition code_point :: "char \<Rightarrow> nat" where
  "code_point c = of_char c"

definition isspace :: "char \<Rightarrow> bool" where
  "isspace c = (let n = code_point c in
     (9 \<le> n \<and> n \<le> 13) \<or> (28 \<le> n \<and> n \<le> 32) \<or> n = 133 \<or> n = 160)"

definition isalnum :: "char \<Rightarrow> bool" where
  "isalnum c = (let n = code_point c in
     (48 \<le> n \<and> n \<le> 57) \<or> (65 \<le> n \<and> n \<le> 90) \<or> (97 \<le> n \<and> n \<le> 122) \<or>
     n = 170 \<or> n = 178 \<or> n = 179 \<or> n = 181 \<or> n = 185 \<or> n = 186 \<or>
     (188 \<le> n \<and> n \<le> 190) \<or> (192 \<le> n \<and> n \<le> 214) \<or>
     (216 \<le> n \<and> n \<le> 246) \<or> (248 \<le> n \<and> n \<le> 255))"

definition lower_char :: "char \<Rightarrow> char" where
  "lower_char c = (let n = code_point c in
     if (65 \<le> n \<and> n \<le> 90) \<or> (192 \<le> n \<and> n \<le> 214) \<or> (216 \<le> n \<and> n \<le> 222)
     then char_of (n + 32) else c)"

text \<open>\<^verbatim>\<open>s.lower()\<close>\<close>

definition lower :: "string \<Rightarrow> string" where
  "lower s = map lower_char s"

definition lstrip :: "(char \<Rightarrow> bool) \<Rightarrow> string \<Rightarrow> string" where
  "lstrip p s = dropWhile p s"

definition rstrip :: "(char \<Rightarrow> bool) \<Rightarrow> string \<Rightarrow> string" where
  "rstrip p s = rev (dropWhile p (rev s))"

text \<open>\<^verbatim>\<open>s.strip()\<close> removes leading and trailing whitespace; \<^verbatim>\<open>s.strip(chars)\<close> removes
  leading and trailing characters that occur in \<^verbatim>\<open>chars\<close>.\<close>

definition strip :: "string \<Rightarrow> string" where
  "strip s = rstrip isspace (lstrip isspace s)"

definition strip_chars :: "string \<Rightarrow> string \<Rightarrow> string" where
  "strip_chars chars s = rstrip (\<lambda>c. c \<in> set chars) (lstrip (\<lambda>c. c \<in> set chars) s)"

text \<open>\<^verbatim>\<open>s.startswith(prefix)\<close>\<close>

definition startswith :: "string \<Rightarrow> string \<Rightarrow> bool" where
  "startswith s pre = (take (length pre) s = pre)"

text \<open>\<^verbatim>\<open>s.replace(old, new)\<close> for one-character \<^verbatim>\<open>old\<close> and \<^verbatim>\<open>new\<close>, the only use the program
  makes of it (line 53).\<close>

definition replace :: "char \<Rightarrow> char \<Rightarrow> string \<Rightarrow> string" where
  "replace old new s = map (\<lambda>c. if c = old then new else c) s"

text \<open>\<^verbatim>\<open>sep.join(xs)\<close>\<close>

fun join :: "string \<Rightarrow> string list \<Rightarrow> string" where
  "join sep [] = []"
| "join sep [x] = x"
| "join sep (x # y # ys) = x @ sep @ join sep (y # ys)"

text \<open>
  The two shapes of pattern the program gives to \<^verbatim>\<open>re.sub\<close>: a single character class
  \<^verbatim>\<open>[...]\<close>, where every matching character is replaced on its own, and a repeated class
  \<^verbatim>\<open>[...]+\<close>, where every maximal run of matching characters is replaced once. The class is
  given as a predicate.
\<close>

definition re_sub_each :: "(char \<Rightarrow> bool) \<Rightarrow> string \<Rightarrow> string \<Rightarrow> string" where
  "re_sub_each cls repl s = concat (map (\<lambda>c. if cls c then repl else [c]) s)"

function re_sub_runs :: "(char \<Rightarrow> bool) \<Rightarrow> string \<Rightarrow> string \<Rightarrow> string" where
  "re_sub_runs cls repl [] = []"
| "re_sub_runs cls repl (c # cs) =
     (if cls c then repl @ re_sub_runs cls repl (dropWhile cls cs)
      else c # re_sub_runs cls repl cs)"
  by pat_completeness auto
termination
  by (relation "measure (\<lambda>(cls, repl, s). length s)")
     (auto simp: length_dropWhile_le less_Suc_eq_le)

text \<open>\<^verbatim>\<open>\w\<close>, and the classes \<^verbatim>\<open>[^\w\s-]\<close> and \<^verbatim>\<open>[\s-]\<close> of lines 47, 48 and 53.\<close>

definition word_char :: "char \<Rightarrow> bool" where
  "word_char c = (isalnum c \<or> c = CHR ''_'')"

definition not_word_space_hyphen :: "char \<Rightarrow> bool" where
  "not_word_space_hyphen c = (\<not> (word_char c \<or> isspace c \<or> c = CHR ''-''))"

definition space_or_hyphen :: "char \<Rightarrow> bool" where
  "space_or_hyphen c = (isspace c \<or> c = CHR ''-'')"

text \<open>\<^verbatim>\<open>os.path.dirname\<close> (posixpath): the part up to the last slash, without its trailing
  slashes unless it consists of slashes only.\<close>

definition dirname :: "string \<Rightarrow> string" where
  "dirname p = (let head = rev (dropWhile (\<lambda>c. c \<noteq> CHR ''/'') (rev p)) in
     if head \<noteq> [] \<and> \<not> list_all (\<lambda>c. c = CHR ''/'') head
     then rstrip (\<lambda>c. c = CHR ''/'') head else head)"

section \<open>Exceptions, the log and the operating system\<close>

datatype py_exception =
    ParserRejectedMarkup
  | ValueError
  | KeyError
  | ValidationError
  | OSError

text \<open>
  One constructor per \<^verbatim>\<open>logger\<close> call of the program, with the values its message
  interpolates; the comment gives the line of the call.
\<close>

datatype log_record =
    Error_container_not_found            \<comment> \<open>117\<close>
  | Info_found nat                       \<comment> \<open>121\<close>
  | Warning_mismatch nat nat             \<comment> \<open>124\<close>
  | Warning_no_valid_image_url string    \<comment> \<open>134\<close>
  | Warning_skipping nat                 \<comment> \<open>145\<close>
  | Info_extracted nat                   \<comment> \<open>147\<close>
  | Error_extracting py_exception        \<comment> \<open>150\<close>
  | Info_saved string                    \<comment> \<open>64\<close>
  | Error_saving string py_exception     \<comment> \<open>66\<close>

text \<open>
  What the file system answers: whether \<^verbatim>\<open>os.makedirs(d, exist_ok=True)\<close> succeeds for a
  directory and whether \<^verbatim>\<open>open(f, 'w')\<close> followed by the write succeeds for a file. A call
  that does not succeed raises \<^verbatim>\<open>OSError\<close>.
\<close>

record os_env =
  makedirs_ok :: "string \<Rightarrow> bool"
  open_ok :: "string \<Rightarrow> bool"

section \<open>Storage utility functions (lines 43--56)\<close>

definition generate_slug :: "string \<Rightarrow> string" where
  "generate_slug name =
     (if name = [] then []
      else let slug = strip (re_sub_each not_word_space_hyphen [] (lower name));
               slug = re_sub_runs space_or_hyphen ''-'' slug
           in strip_chars ''-'' slug)"

definition generate_safe_filename :: "os_env \<Rightarrow> string \<Rightarrow> string \<Rightarrow> py_exception + string" where
  "generate_safe_filename env name category =
     (let safe_name = lower (replace (CHR '' '') (CHR ''_'') (re_sub_each not_word_space_hyphen [] name));
          filename = ''data/'' @ safe_name @ ''_'' @ category @ ''.json''
      in if makedirs_ok env (dirname filename) then Inr filename else Inl OSError)"

section \<open>The parsed document\<close>

text \<open>
  \<^verbatim>\<open>BeautifulSoup(html, 'html.parser')\<close> (line 113) is a call into a library: the model
  takes its outcome as the input of extraction, either the exception the parser raised or the
  tree it built. A tag has a name, the tokens of its multi-valued \<^verbatim>\<open>class\<close> attribute (empty
  when the attribute is absent), a dictionary of its other attributes, whose values are
  strings, and its children; a child is a tag or a piece of text. The root of the tree is
  the tag that stands for the whole document.
\<close>

datatype tag =
  Tag (tag_name: string) (tag_class: "string list") (tag_attrs: "string \<rightharpoonup> string")
      (tag_contents: "node list")
and node = Element tag | NavigableString string

text \<open>The tags below a tag, in document order (a tag before the tags inside it).\<close>

fun descendants :: "tag \<Rightarrow> tag list" and node_tags :: "node \<Rightarrow> tag list" where
  "descendants (Tag name classes attrs contents) = concat (map node_tags contents)"
| "node_tags (Element t) = t # descendants t"
| "node_tags (NavigableString s) = []"

text \<open>
  The keyword \<^verbatim>\<open>class_=cls\<close> of \<^verbatim>\<open>find\<close> and \<^verbatim>\<open>find_all\<close>: a tag matches when one of its class
  tokens is \<^verbatim>\<open>cls\<close>, or when its tokens joined by single spaces are \<^verbatim>\<open>cls\<close>.
  \<^verbatim>\<open>t.find_all(name, class_=cls)\<close> is the list of the matching tags below \<^verbatim>\<open>t\<close> in document
  order, \<^verbatim>\<open>t.find(name, class_=cls)\<close> the first of them or \<^verbatim>\<open>None\<close>, and
  \<^verbatim>\<open>t.get(key, default)\<close> reads the attribute dictionary.
\<close>

definition class_matches :: "string \<Rightarrow> tag \<Rightarrow> bool" where
  "class_matches cls t = (cls \<in> set (tag_class t) \<or> join '' '' (tag_class t) = cls)"

definition soup_find_all :: "tag \<Rightarrow> string \<Rightarrow> string option \<Rightarrow> tag list" where
  "soup_find_all t name klass =
     filter (\<lambda>d. tag_name d = name \<and> (case klass of None \<Rightarrow> True | Some cls \<Rightarrow> class_matches cls d))
       (descendants t)"

definition soup_find :: "tag \<Rightarrow> string \<Rightarrow> string option \<Rightarrow> tag option" where
  "soup_find t name klass =
     (case soup_find_all t name klass of [] \<Rightarrow> None | r # _ \<Rightarrow> Some r)"

definition tag_get :: "tag \<Rightarrow> string \<Rightarrow> string \<Rightarrow> string" where
  "tag_get t key dflt = (case tag_attrs t key of None \<Rightarrow> dflt | Some v \<Rightarrow> v)"

section \<open>Extraction (lines 111--151)\<close>

text \<open>
  A watch is the dictionary appended at lines 138--143. \<^verbatim>\<open>urllib.parse.urljoin\<close> is a
  library function: it is a parameter of the model, a function from the base and the
  reference to the joined URL or to the exception it raises (it raises \<^verbatim>\<open>ValueError\<close> on a
  reference such as \<^verbatim>\<open>//[\<close>).
\<close>

type_synonym watch = "string \<rightharpoonup> string"

type_synonym urljoin = "string \<Rightarrow> string \<Rightarrow> py_exception + string"

text \<open>
  The body of the \<^verbatim>\<open>for\<close> loop (lines 127--145) for the item at index \<^verbatim>\<open>i\<close>: it appends one
  watch, or logs one warning, or an exception leaves the loop.
\<close>

datatype step = Appended watch | Skipped log_record | Raised py_exception

definition process_item :: "urljoin \<Rightarrow> string list \<Rightarrow> nat \<Rightarrow> tag \<Rightarrow> step" where
  "process_item urljoin links i item =
     (let img_tag = soup_find item ''img'' None in
      if img_tag \<noteq> None \<and> i < length links then
        let name = strip (tag_get (the img_tag) ''alt'' ''Unknown Watch'');
            img_url = strip (tag_get (the img_tag) ''src'' [])
        in (case (if img_url \<noteq> [] \<and> \<not> startswith img_url ''http''
                  then urljoin ''https://www.shopar.ai'' img_url else Inr img_url) of
              Inl e \<Rightarrow> Raised e
            | Inr img_url \<Rightarrow>
                (if img_url = [] then Skipped (Warning_no_valid_image_url name)
                 else let link = strip (links ! i);
                          slug = generate_slug name
                      in Appended [''name'' \<mapsto> name, ''image_url'' \<mapsto> img_url,
                                   ''link'' \<mapsto> link, ''slug'' \<mapsto> slug]))
      else Skipped (Warning_skipping i))"

text \<open>The loop of line 126, with the index, the list \<^verbatim>\<open>watches\<close> and the log it has reached.\<close>

fun watch_loop ::
  "urljoin \<Rightarrow> string list \<Rightarrow> nat \<Rightarrow> tag list \<Rightarrow> watch list \<Rightarrow> log_record list
     \<Rightarrow> (py_exception + watch list) \<times> log_record list" where
  "watch_loop urljoin links i [] watches lg = (Inr watches, lg)"
| "watch_loop urljoin links i (item # items) watches lg =
     (case process_item urljoin links i item of
        Raised e \<Rightarrow> (Inl e, lg)
      | Skipped r \<Rightarrow> watch_loop urljoin links (Suc i) items watches (lg @ [r])
      | Appended w \<Rightarrow> watch_loop urljoin links (Suc i) items (watches @ [w]) lg)"

text \<open>The \<^verbatim>\<open>try\<close> block (lines 113--148): what it returns or the exception that leaves it,
  and the log records written so far.\<close>

definition extract_body ::
  "urljoin \<Rightarrow> py_exception + tag \<Rightarrow> string list \<Rightarrow> (py_exception + watch list) \<times> log_record list" where
  "extract_body urljoin html links =
     (case html of
        Inl e \<Rightarrow> (Inl e, [])
      | Inr soup \<Rightarrow>
          (case soup_find soup ''div'' (Some ''flex space-x-4 min-h-[60px]'') of
             None \<Rightarrow> (Inr [], [Error_container_not_found])
           | Some watch_container \<Rightarrow>
               let watch_items = soup_find_all watch_container ''div'' (Some ''inline-block'');
                   lg = [Info_found (length watch_items)];
                   lg = (if length watch_items \<noteq> length links
                         then lg @ [Warning_mismatch (length watch_items) (length links)] else lg)
               in (case watch_loop urljoin links 0 watch_items [] lg of
                     (Inl e, lg) \<Rightarrow> (Inl e, lg)
                   | (Inr watches, lg) \<Rightarrow> (Inr watches, lg @ [Info_extracted (length watches)]))))"

text \<open>The function with its \<^verbatim>\<open>except Exception\<close> clause (lines 149--151): the list it
  returns and the log records of the call.\<close>

definition extract_watch_data_logged ::
  "urljoin \<Rightarrow> py_exception + tag \<Rightarrow> string list \<Rightarrow> watch list \<times> log_record list" where
  "extract_watch_data_logged urljoin html links =
     (case extract_body urljoin html links of
        (Inl e, lg) \<Rightarrow> ([], lg @ [Error_extracting e])
      | (Inr watches, lg) \<Rightarrow> (watches, lg))"

definition extract_watch_data :: "urljoin \<Rightarrow> py_exception + tag \<Rightarrow> string list \<Rightarrow> watch list" where
  "extract_watch_data urljoin html links = fst (extract_watch_data_logged urljoin html links)"

section \<open>The sample document and the provided links (lines 70--108)\<close>

text \<open>
  \<^verbatim>\<open>html_content\<close> is the tree that \<^verbatim>\<open>html.parser\<close> builds from the string literal of lines
  70--96: the text between two tags is a line break followed by the indentation of the next
  line, and each of the eight carousel items of lines 81--88 has the same three nested tags.
\<close>

definition indent :: "nat \<Rightarrow> string" where
  "indent n = CHR 0x0A # replicate n (CHR '' '')"

definition carousel_item :: "string \<Rightarrow> string \<Rightarrow> node" where
  "carousel_item src alt =
     Element (Tag ''div'' [''inline-block''] Map.empty
       [Element (Tag ''div''
          [''flex'', ''h-16'', ''w-16'', ''items-center'', ''justify-center'', ''rounded-full'',
           ''bg-white'', ''shadow-lg'', ''cursor-pointer'', ''overflow-hidden'']
          Map.empty
          [Element (Tag ''img'' [''h-full'', ''w-full'', ''object-cover'']
             [''src'' \<mapsto> src, ''alt'' \<mapsto> alt] [])])])"

definition carousel :: node where
  "carousel =
     Element (Tag ''div'' [''flex'', ''space-x-4'', ''min-h-[60px]''] Map.empty
     [
      NavigableString (indent 24),
      carousel_item
        ''https://dj5e08oeu5ym4.cloudfront.net/thumb/c2a36185-19be-48dc-80ca-a40cd1e930ce.jpg''
        ''Hublot MP-10 Tourbillon'',
      NavigableString (indent 24),
      carousel_item
        ''https://dj5e08oeu5ym4.cloudfront.net/thumb/34b97066-cf29-4941-9d0c-581084f5981e.png''
        ''Hublot Spirit Of Big Bang Full Magic Gold'',
      NavigableString (indent 24),
      carousel_item
        ''https://dj5e08oeu5ym4.cloudfront.net/thumb/165c3844-6301-4398-b8fd-7b15f0032e16.jpg''
        ''Movado Alta Super Sub Sea Automatic'',
      NavigableString (indent 24),
      carousel_item
        ''https://dj5e08oeu5ym4.cloudfront.net/thumb/12df7df7-fecd-412e-bea5-02e92c312408.webp''
        ''Swatch Obsidian Ink'',
      NavigableString (indent 24),
      carousel_item
        ''https://dj5e08oeu5ym4.cloudfront.net/thumb/eb5e18b9-400c-4c14-b752-86d2be88a482.avif''
        ''Swatch Caramellissima'',
      NavigableString (indent 24),
      carousel_item
        ''https://dj5e08oeu5ym4.cloudfront.net/thumb/d670348a-0aee-4916-b011-a8943b1d7496.jpg''
        ''Swatch Random Ghost'',
      NavigableString (indent 24),
      carousel_item
        ''https://dj5e08oeu5ym4.cloudfront.net/thumb/425b727b-c788-46b3-adb2-4cdfb9a39c2c.png''
        ''Swatch Up In Smoke'',
      NavigableString (indent 24),
      carousel_item
        ''https://dj5e08oeu5ym4.cloudfront.net/thumb/cd3708cc-75fc-4f43-a8b3-011b061dba36.webp''
        ''Swatch Cobalt Lagoon'',
      NavigableString (indent 20)
     ])"

definition html_content :: tag where
  "html_content =
     Tag ''[document]'' [] Map.empty
     [NavigableString (indent 0),
      Element (Tag ''body'' [''__className_d28b8a''] Map.empty
      [NavigableString (indent 0),
       Element (Tag ''div'' [] Map.empty
       [NavigableString (indent 4),
        Element (Tag ''div'' [] Map.empty
        [NavigableString (indent 8),
         Element (Tag ''div'' [''absolute'', ''inset-0'', ''bg-white''] Map.empty
         [NavigableString (indent 12),
          Element (Tag ''div''
            [''absolute'', ''bottom-0'', ''left-0'', ''right-0'', ''z-50'', ''flex'', ''w-full'',
             ''flex-col'', ''items-center'', ''justify-center'', ''pb-6'', ''pt-6'']
            Map.empty
          [NavigableString (indent 16),
           Element (Tag ''div'' [''mb-3'', ''px-3'', ''text-center'', ''text-zinc-700''] Map.empty
           [NavigableString (indent 20),
            Element (Tag ''h1'' [''text-xl'', ''font-semibold''] Map.empty
              [NavigableString ''Hublot Mp-10 Tourbillon'']),
            NavigableString (indent 16)]),
           NavigableString (indent 16),
           Element (Tag ''div''
             [''relative'', ''mb-4'', ''w-full'', ''overflow-x-hidden'', ''py-3'', ''min-h-[60px]'']
             Map.empty
           [NavigableString (indent 20),
            carousel,
            NavigableString (indent 16)]),
           NavigableString (indent 12)]),
          NavigableString (indent 8)]),
         NavigableString (indent 4)]),
        NavigableString (indent 0)]),
       NavigableString (indent 0)]),
      NavigableString (indent 0)]"

definition watch_links :: "string list" where
  "watch_links =
  [''https://www.shopar.ai/collection/watches?product=66618cf59d3fb1edda45d3ba&mode=3d'',
   ''https://www.shopar.ai/collection/watches?product=65f48bb59ae86ec2a67a435d&mode=3d'',
   ''https://www.shopar.ai/collection/watches?product=657218fa3c333cddc7d2341c&mode=3d'',
   ''https://www.shopar.ai/collection/watches?product=66ba01a114de953c80003cfc&mode=3d'',
   ''https://www.shopar.ai/collection/watches?product=66ba06f314de953c8000719c&mode=3d'',
   ''https://www.shopar.ai/collection/watches?product=67129023c904b2a2777efe9d&mode=3d'',
   ''https://www.shopar.ai/collection/watches?product=6712989ac904b2a2777f39ed&mode=3d'',
   ''https://www.shopar.ai/collection/watches?product=66ba071914de953c8000722f&mode=3d'']"

section \<open>The data model (lines 30--40)\<close>

text \<open>
  \<^verbatim>\<open>ProductDetails\<close> holds a list of products and \<^verbatim>\<open>WatchQuery\<close> a name: they are modelled as
  a \<^typ>\<open>'a list\<close> and a \<^typ>\<open>string\<close>.
\<close>

record Product =
  name :: string
  image_url :: string
  link :: string
  slug :: "string option"

text \<open>
  \<^verbatim>\<open>Product(**watch)\<close>: validation fails when a required field is missing, a missing
  \<^verbatim>\<open>slug\<close> takes its default \<^verbatim>\<open>None\<close>, and other keys are ignored.
  \<^verbatim>\<open>[Product(**watch) for watch in watches]\<close> stops at the first failure.
\<close>

definition Product_kwargs :: "watch \<Rightarrow> py_exception + Product" where
  "Product_kwargs watch =
     (case (watch ''name'', watch ''image_url'', watch ''link'') of
        (Some n, Some u, Some l) \<Rightarrow> Inr \<lparr>name = n, image_url = u, link = l, slug = watch ''slug''\<rparr>
      | _ \<Rightarrow> Inl ValidationError)"

fun Products_kwargs :: "watch list \<Rightarrow> py_exception + Product list" where
  "Products_kwargs [] = Inr []"
| "Products_kwargs (watch # watches) =
     (case Product_kwargs watch of
        Inl e \<Rightarrow> Inl e
      | Inr p \<Rightarrow> (case Products_kwargs watches of Inl e \<Rightarrow> Inl e | Inr ps \<Rightarrow> Inr (p # ps)))"

section \<open>Persistence (lines 58--67)\<close>

text \<open>
  \<^verbatim>\<open>model_dump(exclude_none=True)\<close> gives a dictionary of the fields that are not \<^verbatim>\<open>None\<close>,
  in the order of their declaration, and \<^verbatim>\<open>json.dump\<close> writes it as a JSON document. The
  model keeps the JSON value that the document denotes; the characters of the document
  (indentation, escapes) are the library's. The files are the list of the writes that
  succeeded, the latest last.
\<close>

datatype json = JString string | JArray "json list" | JObject "(string \<times> json) list" | JNull

datatype base_model = A_Product Product | A_ProductDetails "Product list"

definition dump_Product :: "Product \<Rightarrow> json" where
  "dump_Product p =
     JObject ([(''name'', JString (name p)), (''image_url'', JString (image_url p)),
               (''link'', JString (link p))]
              @ (case slug p of None \<Rightarrow> [] | Some s \<Rightarrow> [(''slug'', JString s)]))"

fun model_dump_exclude_none :: "base_model \<Rightarrow> json" where
  "model_dump_exclude_none (A_Product p) = dump_Product p"
| "model_dump_exclude_none (A_ProductDetails ps) =
     JObject [(''products'', JArray (map dump_Product ps))]"

record world =
  written :: "(string \<times> json) list"
  records :: "log_record list"

definition save_data :: "os_env \<Rightarrow> base_model \<Rightarrow> string \<Rightarrow> world \<Rightarrow> (py_exception + unit) \<times> world" where
  "save_data env data filename w =
     (let serialized_data = model_dump_exclude_none data in
      if open_ok env filename
      then (Inr (), w\<lparr>written := written w @ [(filename, serialized_data)],
                       records := records w @ [Info_saved filename]\<rparr>)
      else (Inl OSError, w\<lparr>records := records w @ [Error_saving filename OSError]\<rparr>))"

section \<open>API endpoints (lines 154--188)\<close>

text \<open>
  A handler returns a value, raises \<^verbatim>\<open>HTTPException\<close> with a status code and a detail, or
  is left by another exception. The module constants \<^verbatim>\<open>html_content\<close> and \<^verbatim>\<open>watch_links\<close>
  that the handlers read are arguments of the model, so that it covers every value they
  could hold.
\<close>

datatype 'a response = Response 'a | HTTPException nat string | Unhandled py_exception

definition get_watch_collection ::
  "urljoin \<Rightarrow> py_exception + tag \<Rightarrow> string list \<Rightarrow> Product list response" where
  "get_watch_collection urljoin html links =
     (let watches = extract_watch_data urljoin html links in
      if watches = [] then HTTPException 500 ''Failed to process watch collection''
      else (case Products_kwargs watches of
              Inl e \<Rightarrow> Unhandled e
            | Inr ps \<Rightarrow> Response ps))"

text \<open>The loop of lines 168--170: \<^verbatim>\<open>None\<close> when it ends without returning.\<close>

fun by_name_loop :: "string \<Rightarrow> watch list \<Rightarrow> (py_exception + Product) option" where
  "by_name_loop watch_name [] = None"
| "by_name_loop watch_name (watch # watches) =
     (case watch ''name'' of
        None \<Rightarrow> Some (Inl KeyError)
      | Some n \<Rightarrow>
          if strip (lower n) = watch_name then Some (Product_kwargs watch)
          else by_name_loop watch_name watches)"

definition get_watch_by_name ::
  "urljoin \<Rightarrow> py_exception + tag \<Rightarrow> string list \<Rightarrow> string \<Rightarrow> Product response" where
  "get_watch_by_name urljoin html links query_name =
     (let watches = extract_watch_data urljoin html links in
      if watches = [] then HTTPException 500 ''Failed to process watch collection''
      else let watch_name = lower (strip query_name) in
           (case by_name_loop watch_name watches of
              Some (Inr p) \<Rightarrow> Response p
            | Some (Inl e) \<Rightarrow> Unhandled e
            | None \<Rightarrow> HTTPException 404
                       (''Watch '' @ [CHR 0x27] @ query_name @ [CHR 0x27] @ '' not found'')))"

text \<open>The loop of lines 183--186, with the list \<^verbatim>\<open>saved_files\<close> it has reached.\<close>

fun save_each ::
  "os_env \<Rightarrow> watch list \<Rightarrow> string list \<Rightarrow> world \<Rightarrow> (py_exception + string list) \<times> world" where
  "save_each env [] saved_files w = (Inr saved_files, w)"
| "save_each env (watch # watches) saved_files w =
     (case watch ''name'' of
        None \<Rightarrow> (Inl KeyError, w)
      | Some n \<Rightarrow>
          (case generate_safe_filename env n ''watch'' of
             Inl e \<Rightarrow> (Inl e, w)
           | Inr filename \<Rightarrow>
               (case Product_kwargs watch of
                  Inl e \<Rightarrow> (Inl e, w)
                | Inr p \<Rightarrow>
                    (case save_data env (A_Product p) filename w of
                       (Inl e, w') \<Rightarrow> (Inl e, w')
                     | (Inr u, w') \<Rightarrow> save_each env watches (saved_files @ [filename]) w'))))"

definition save_watch_collection ::
  "os_env \<Rightarrow> urljoin \<Rightarrow> py_exception + tag \<Rightarrow> string list \<Rightarrow> world \<Rightarrow> string response \<times> world" where
  "save_watch_collection env urljoin html links w0 =
     (let (watches, lg) = extract_watch_data_logged urljoin html links;
          w = w0\<lparr>records := records w0 @ lg\<rparr>
      in if watches = [] then (HTTPException 500 ''Failed to process watch collection'', w)
         else (case generate_safe_filename env ''watch_collection'' ''watches'' of
                 Inl e \<Rightarrow> (Unhandled e, w)
               | Inr collection_filename \<Rightarrow>
                   (case Products_kwargs watches of
                      Inl e \<Rightarrow> (Unhandled e, w)
                    | Inr ps \<Rightarrow>
                        (case save_data env (A_ProductDetails ps) collection_filename w of
                           (Inl e, w1) \<Rightarrow> (Unhandled e, w1)
                         | (Inr u, w1) \<Rightarrow>
                             (case save_each env watches [] w1 of
                                (Inl e, w2) \<Rightarrow> (Unhandled e, w2)
                              | (Inr saved_files, w2) \<Rightarrow>
                                  (Response (''Watch collection saved to '' @ collection_filename
                                      @ '' and individual files: '' @ join '', '' saved_files),
                                   w2))))))"

section \<open>The specification's wording\<close>

text \<open>
  The definitions of this section follow the sentences of the specification, not the code;
  the theorems compare them with the program.
\<close>

subsection \<open>The slug (specification 4.1)\<close>

text \<open>
  "Collapse any run of whitespace or hyphen characters into a single hyphen": a character of
  the class is dropped when another one follows it, and becomes the hyphen otherwise.
\<close>

fun collapse_runs :: "(char \<Rightarrow> bool) \<Rightarrow> char \<Rightarrow> string \<Rightarrow> string" where
  "collapse_runs p h [] = []"
| "collapse_runs p h [c] = [if p c then h else c]"
| "collapse_runs p h (c # d # s) =
     (if p c then (if p d then collapse_runs p h (d # s) else h # collapse_runs p h (d # s))
      else c # collapse_runs p h (d # s))"

definition slug_spec :: "string \<Rightarrow> string" where
  "slug_spec s =
     (let lowered = lower s;
          kept = filter (\<lambda>c. isalnum c \<or> c = CHR ''_'' \<or> isspace c \<or> c = CHR ''-'') lowered;
          collapsed = collapse_runs (\<lambda>c. isspace c \<or> c = CHR ''-'') (CHR ''-'') kept
      in rstrip (\<lambda>c. c = CHR ''-'') (lstrip (\<lambda>c. c = CHR ''-'') collapsed))"

subsection \<open>The record of an item (specification 4.2, step 4)\<close>

text \<open>
  An absolute-URL scheme (RFC 3986): a letter, then letters, digits, \<^verbatim>\<open>+\<close>, \<^verbatim>\<open>-\<close> or \<^verbatim>\<open>.\<close>,
  up to a colon.
\<close>

definition ascii_letter :: "char \<Rightarrow> bool" where
  "ascii_letter c = (let n = code_point c in (65 \<le> n \<and> n \<le> 90) \<or> (97 \<le> n \<and> n \<le> 122))"

definition scheme_char :: "char \<Rightarrow> bool" where
  "scheme_char c = (let n = code_point c in
     ascii_letter c \<or> (48 \<le> n \<and> n \<le> 57) \<or> c = CHR ''+'' \<or> c = CHR ''-'' \<or> c = CHR ''.'')"

definition has_url_scheme :: "string \<Rightarrow> bool" where
  "has_url_scheme s =
     (let sch = takeWhile (\<lambda>c. c \<noteq> CHR '':'') s in
      length sch < length s \<and> sch \<noteq> [] \<and> ascii_letter (hd sch) \<and> list_all scheme_char sch)"

text \<open>
  The record built from an image tag and the link of its position: the trimmed label
  (\<^verbatim>\<open>alt\<close>, or "Unknown Watch"), the trimmed source resolved against the base origin when
  \<^verbatim>\<open>to_resolve\<close> says so, no record when the URL is empty, and otherwise the four fields. The
  specification resolves a source that lacks an absolute-URL scheme (\<open>record_as_stated\<close>);
  the program resolves a source that is not empty and does not start with \<^verbatim>\<open>http\<close>
  (\<open>record_as_built\<close>).
\<close>

definition build_record ::
  "(string \<Rightarrow> bool) \<Rightarrow> urljoin \<Rightarrow> tag \<Rightarrow> string \<Rightarrow> py_exception + watch option" where
  "build_record to_resolve urljoin img lnk =
     (let label = strip (case tag_attrs img ''alt'' of None \<Rightarrow> ''Unknown Watch'' | Some a \<Rightarrow> a);
          src = strip (case tag_attrs img ''src'' of None \<Rightarrow> [] | Some a \<Rightarrow> a)
      in case (if to_resolve src then urljoin ''https://www.shopar.ai'' src else Inr src) of
           Inl e \<Rightarrow> Inl e
         | Inr url \<Rightarrow>
             Inr (if url = [] then None
                  else Some [''name'' \<mapsto> label, ''image_url'' \<mapsto> url,
                             ''link'' \<mapsto> strip lnk, ''slug'' \<mapsto> generate_slug label]))"

definition record_as_stated :: "urljoin \<Rightarrow> tag \<Rightarrow> string \<Rightarrow> py_exception + watch option" where
  "record_as_stated = build_record (\<lambda>src. \<not> has_url_scheme src)"

definition record_as_built :: "urljoin \<Rightarrow> tag \<Rightarrow> string \<Rightarrow> py_exception + watch option" where
  "record_as_built = build_record (\<lambda>src. src \<noteq> [] \<and> \<not> startswith src ''http'')"

text \<open>
  The records of the items paired with their links, in order: an item without an image gives
  none, and the first exception ends the collection.
\<close>

fun collect ::
  "(tag \<Rightarrow> string \<Rightarrow> py_exception + watch option) \<Rightarrow> (tag \<times> string) list
     \<Rightarrow> py_exception + watch list" where
  "collect f [] = Inr []"
| "collect f ((item, lnk) # rest) =
     (case soup_find item ''img'' None of
        None \<Rightarrow> collect f rest
      | Some img \<Rightarrow>
          (case f img lnk of
             Inl e \<Rightarrow> Inl e
           | Inr r \<Rightarrow>
               (case collect f rest of
                  Inl e \<Rightarrow> Inl e
                | Inr ws \<Rightarrow> Inr ((case r of None \<Rightarrow> [] | Some w \<Rightarrow> [w]) @ ws))))"

text \<open>A watch that holds the four fields, with a URL that is not empty and the slug of its name.\<close>

definition complete_watch :: "watch \<Rightarrow> bool" where
  "complete_watch w =
     (case (w ''name'', w ''image_url'', w ''link'', w ''slug'') of
        (Some n, Some u, Some l, Some s) \<Rightarrow> u \<noteq> [] \<and> s = generate_slug n
      | _ \<Rightarrow> False)"

subsection \<open>Matching a name and reading a product back (specification 4.3, 4.4)\<close>

text \<open>"Case-insensitive, whitespace-trimmed equality" of two names.\<close>

definition same_name :: "string \<Rightarrow> string \<Rightarrow> bool" where
  "same_name a b = (lower (strip a) = lower (strip b))"

text \<open>
  Re-parsing a written product: the JSON object gives the keyword arguments of
  \<^verbatim>\<open>Product\<close>, whose three required fields are strings and whose \<^verbatim>\<open>slug\<close> is a string,
  \<^verbatim>\<open>null\<close> or absent.
\<close>

definition json_string :: "json option \<Rightarrow> string option" where
  "json_string j = (case j of Some (JString s) \<Rightarrow> Some s | _ \<Rightarrow> None)"

definition Product_of_json :: "json \<Rightarrow> py_exception + Product" where
  "Product_of_json j =
     (case j of
        JObject kvs \<Rightarrow>
          (case (json_string (map_of kvs ''name''), json_string (map_of kvs ''image_url''),
                 json_string (map_of kvs ''link'')) of
             (Some n, Some u, Some l) \<Rightarrow>
               (case map_of kvs ''slug'' of
                  None \<Rightarrow> Inr \<lparr>name = n, image_url = u, link = l, slug = None\<rparr>
                | Some JNull \<Rightarrow> Inr \<lparr>name = n, image_url = u, link = l, slug = None\<rparr>
                | Some (JString s) \<Rightarrow> Inr \<lparr>name = n, image_url = u, link = l, slug = Some s\<rparr>
                | Some _ \<Rightarrow> Inl ValidationError)
           | _ \<Rightarrow> Inl ValidationError)
      | _ \<Rightarrow> Inl ValidationError)"

text \<open>Re-parsing a written collection: the object holds the list of the products.\<close>

fun Products_of_json :: "json list \<Rightarrow> py_exception + Product list" where
  "Products_of_json [] = Inr []"
| "Products_of_json (j # js) =
     (case Product_of_json j of
        Inl e \<Rightarrow> Inl e
      | Inr p \<Rightarrow> (case Products_of_json js of Inl e \<Rightarrow> Inl e | Inr ps \<Rightarrow> Inr (p # ps)))"

definition ProductDetails_of_json :: "json \<Rightarrow> py_exception + Product list" where
  "ProductDetails_of_json j =
     (case j of
        JObject kvs \<Rightarrow>
          (case map_of kvs ''products'' of
             Some (JArray js) \<Rightarrow> Products_of_json js
           | _ \<Rightarrow> Inl ValidationError)
      | _ \<Rightarrow> Inl ValidationError)"

text \<open>The keys of a JSON object.\<close>

definition json_keys :: "json \<Rightarrow> string list" where
  "json_keys j = (case j of JObject kvs \<Rightarrow> map fst kvs | _ \<Rightarrow> [])"

text \<open>A JSON value that holds no \<^verbatim>\<open>null\<close>.\<close>

fun null_free :: "json \<Rightarrow> bool" where
  "null_free JNull = False"
| "null_free (JString s) = True"
| "null_free (JArray js) = list_all null_free js"
| "null_free (JObject kvs) = list_all (\<lambda>kv. null_free (snd kv)) kvs"

subsection \<open>The file name (specification 4.3)\<close>

text \<open>
  "Strip every character from the name that is not alphanumeric, underscore, whitespace, or
  hyphen; replace remaining whitespace with underscores; lowercase the result; compose
  \<^verbatim>\<open><processed-name>_<category>.json\<close> beneath a fixed data directory."
\<close>

definition safe_filename_spec :: "string \<Rightarrow> string \<Rightarrow> string" where
  "safe_filename_spec s category =
     (let stripped = filter (\<lambda>c. isalnum c \<or> c = CHR ''_'' \<or> isspace c \<or> c = CHR ''-'') s;
          replaced = map (\<lambda>c. if isspace c then CHR ''_'' else c) stripped
      in ''data/'' @ lower replaced @ ''_'' @ category @ ''.json'')"

section \<open>Example inputs\<close>

text \<open>
  A document whose carousel container holds the given children, and a stand-in for
  \<^verbatim>\<open>urljoin\<close> on the references of the examples: for a base without a path and a plain
  relative path the library returns the base, a slash and the path
  (\<^verbatim>\<open>urljoin('https://www.shopar.ai', 'httpfoo.png')\<close> is
  \<^verbatim>\<open>'https://www.shopar.ai/httpfoo.png'\<close>), and it raises \<^verbatim>\<open>ValueError\<close> on a reference
  whose host part opens a bracket that it does not close (\<^verbatim>\<open>'//['\<close>).
\<close>

definition example_container :: "node list \<Rightarrow> tag" where
  "example_container items = Tag ''div'' [''flex'', ''space-x-4'', ''min-h-[60px]''] Map.empty items"

definition document_of :: "node list \<Rightarrow> tag" where
  "document_of items = Tag ''[document]'' [] Map.empty [Element (example_container items)]"

definition urljoin_example :: urljoin where
  "urljoin_example base url =
     (if startswith url ''//['' \<and> CHR '']'' \<notin> set url then Inl ValueError
      else Inr (base @ ''/'' @ url))"

definition fields_of :: "watch \<Rightarrow> string option \<times> string option \<times> string option \<times> string option" where
  "fields_of w = (w ''name'', w ''image_url'', w ''link'', w ''slug'')"

text \<open>
  Five children of a container, four of them items, for three links: the first source is a
  relative path, the second is empty, the third is absolute, and the fourth item has no link.
\<close>

definition example_items :: "node list" where
  "example_items =
     [carousel_item ''thumb/a.png'' '' Big Bang '', NavigableString ''x'', carousel_item [] ''B'',
      carousel_item ''http://h/c.png'' ''C'', carousel_item ''thumb/e.png'' ''E'']"

definition example_links :: "string list" where
  "example_links = [''l1'', ''l2'', '' l3 '']"

text \<open>The exception of an outcome, and the fields of the watches of an outcome.\<close>

definition raised :: "py_exception + 'a \<Rightarrow> py_exception option" where
  "raised r = (case r of Inl e \<Rightarrow> Some e | Inr x \<Rightarrow> None)"

definition returned_fields ::
  "py_exception + watch list
     \<Rightarrow> (string option \<times> string option \<times> string option \<times> string option) list option" where
  "returned_fields r = (case r of Inl e \<Rightarrow> None | Inr ws \<Rightarrow> Some (map fields_of ws))"

text \<open>A file system on which every call succeeds, and a world in which nothing has happened.\<close>

definition example_env :: os_env where
  "example_env = \<lparr>makedirs_ok = (\<lambda>d. True), open_ok = (\<lambda>f. True)\<rparr>"

definition empty_world :: world where
  "empty_world = \<lparr>written = [], records = []\<rparr>"

section \<open>Properties of the string functions\<close>

lemma code_point_less: "code_point c < 256"
  unfolding code_point_def by (cases c) simp

lemma code_point_char_of: "code_point (char_of (n::nat)) = n mod 256"
  unfolding code_point_def by simp

lemma lower_char_idem: "lower_char (lower_char c) = lower_char c"
  unfolding lower_char_def Let_def
  by (auto simp: code_point_char_of)

lemma isspace_lower_char: "isspace (lower_char c) = isspace c"
  unfolding lower_char_def isspace_def Let_def
  by (auto simp: code_point_char_of)

lemma rstrip_Nil: "rstrip p [] = []"
  by (simp add: rstrip_def)

lemma rstrip_Cons:
  "rstrip p (x # s) = (if rstrip p s = [] then (if p x then [] else [x]) else x # rstrip p s)"
  by (simp add: rstrip_def dropWhile_append)

lemma rstrip_append_all: "\<forall>c\<in>set u. p c \<Longrightarrow> rstrip p (s @ u) = rstrip p s"
  by (simp add: rstrip_def dropWhile_append)

lemma rstrip_decomp: "rstrip p s @ rev (takeWhile p (rev s)) = s"
  by (metis rev_append rev_rev_ident rstrip_def takeWhile_dropWhile_id)

lemma dropWhile_weaker:
  "(\<And>c. q c \<Longrightarrow> p c) \<Longrightarrow> dropWhile p (dropWhile q s) = dropWhile p s"
  by (induction s) auto


lemma sub_runs_Nil_iff: "re_sub_runs p [h] s = [] \<longleftrightarrow> s = []"
  by (cases s) auto

lemma sub_runs_no_lead:
  "s = [] \<or> \<not> p (hd s) \<Longrightarrow> dropWhile p (re_sub_runs p [h] s) = re_sub_runs p [h] s"
  by (cases s) auto

lemma dropWhile_no_lead: "dropWhile p s = [] \<or> \<not> p (hd (dropWhile p s))"
  by (metis hd_dropWhile)

lemma sub_runs_L:
  "p h \<Longrightarrow> dropWhile p (re_sub_runs p [h] s) = re_sub_runs p [h] (dropWhile p s)"
proof (cases s)
  case Nil
  then show ?thesis by simp
next
  case (Cons c cs)
  assume h: "p h"
  show ?thesis
  proof (cases "p c")
    case True
    with Cons h show ?thesis
      by (simp add: sub_runs_no_lead [OF dropWhile_no_lead])
  next
    case False
    with Cons show ?thesis by simp
  qed
qed

lemma set_sub_runs: "set (re_sub_runs p [h] s) \<subseteq> {c \<in> set s. \<not> p c} \<union> {h}"
proof (induction p "[h]" s rule: re_sub_runs.induct)
  case (1 cls)
  then show ?case by simp
next
  case (2 cls c cs)
  show ?case
  proof (cases "cls c")
    case True
    have "set (dropWhile cls cs) \<subseteq> set cs" by (simp add: set_dropWhileD subsetI)
    with True 2 show ?thesis by auto
  next
    case False
    with 2 show ?thesis by auto
  qed
qed

lemma sub_runs_sep_iff:
  "p h \<Longrightarrow> c \<in> set (re_sub_runs p [h] s) \<Longrightarrow> p c \<longleftrightarrow> c = h"
  using set_sub_runs [of p h s] by auto

lemma rstrip_cong:
  "(\<And>c. c \<in> set s \<Longrightarrow> p c = q c) \<Longrightarrow> rstrip p s = rstrip q s"
  unfolding rstrip_def by (metis dropWhile_cong set_rev)

lemma rstrip_lstrip_same: "rstrip p (dropWhile p s) = dropWhile p (rstrip p s)"
  by (induction s) (auto simp: rstrip_Cons rstrip_Nil)

lemma rstrip_nonempty_lstrip: "rstrip p s \<noteq> [] \<Longrightarrow> dropWhile p (rstrip p s) \<noteq> []"
proof -
  assume ne: "rstrip p s \<noteq> []"
  then have "dropWhile p (rev s) \<noteq> []" by (simp add: rstrip_def)
  then have "\<not> p (hd (dropWhile p (rev s)))" by (rule hd_dropWhile)
  moreover have "hd (dropWhile p (rev s)) \<in> set (rstrip p s)"
    using ne by (simp add: rstrip_def)
  ultimately show ?thesis by (auto simp: dropWhile_eq_Nil_conv)
qed

lemma sub_runs_R:
  "p h \<Longrightarrow> rstrip p (re_sub_runs p [h] s) = re_sub_runs p [h] (rstrip p s)"
proof (induction p "[h]" s rule: re_sub_runs.induct)
  case (1 cls)
  then show ?case by (simp add: rstrip_Nil)
next
  case (2 cls c cs)
  show ?case
  proof (cases "cls c")
    case True
    have ih: "rstrip cls (re_sub_runs cls [h] (dropWhile cls cs))
               = re_sub_runs cls [h] (rstrip cls (dropWhile cls cs))"
      using 2 True by simp
    show ?thesis
    proof (cases "rstrip cls cs = []")
      case True
      then have "dropWhile cls (rstrip cls cs) = []" by simp
      then have "rstrip cls (dropWhile cls cs) = []" by (simp add: rstrip_lstrip_same)
      with ih \<open>cls c\<close> \<open>cls h\<close> True show ?thesis
        by (simp add: rstrip_Cons sub_runs_Nil_iff)
    next
      case False
      from rstrip_nonempty_lstrip [OF False] have "rstrip cls (dropWhile cls cs) \<noteq> []"
        unfolding rstrip_lstrip_same .
      with ih \<open>cls c\<close> \<open>cls h\<close> False show ?thesis
        by (simp add: rstrip_Cons sub_runs_Nil_iff rstrip_lstrip_same)
    qed
  next
    case False
    with 2 have ih: "rstrip cls (re_sub_runs cls [h] cs) = re_sub_runs cls [h] (rstrip cls cs)"
      by simp
    from False ih show ?thesis
      by (auto simp: rstrip_Cons sub_runs_Nil_iff)
  qed
qed

lemma sub_runs_idem:
  "p h \<Longrightarrow> re_sub_runs p [h] (re_sub_runs p [h] s) = re_sub_runs p [h] s"
proof (induction p "[h]" s rule: re_sub_runs.induct)
  case (1 cls)
  then show ?case by simp
next
  case (2 cls c cs)
  show ?case
  proof (cases "cls c")
    case True
    with 2 show ?thesis
      by (simp add: sub_runs_no_lead [OF dropWhile_no_lead])
  next
    case False
    with 2 show ?thesis by simp
  qed
qed

lemma collapse_runs_eq: "collapse_runs p h s = re_sub_runs p [h] s"
  by (induction p h s rule: collapse_runs.induct) auto

lemma re_sub_each_delete: "re_sub_each cls [] s = filter (\<lambda>c. \<not> cls c) s"
  unfolding re_sub_each_def by (induction s) auto

lemma strip_chars_single: "strip_chars [h] s = rstrip (\<lambda>c. c = h) (dropWhile (\<lambda>c. c = h) s)"
  by (simp add: strip_chars_def lstrip_def)

lemma strip_chars_sub_runs:
  assumes "p h"
  shows "strip_chars [h] (re_sub_runs p [h] s) = re_sub_runs p [h] (rstrip p (dropWhile p s))"
proof -
  have "dropWhile (\<lambda>c. c = h) (re_sub_runs p [h] s) = dropWhile p (re_sub_runs p [h] s)"
    by (rule dropWhile_cong) (use assms sub_runs_sep_iff in auto)
  also have "\<dots> = re_sub_runs p [h] (dropWhile p s)"
    by (rule sub_runs_L [of p h, OF assms])
  finally have l: "dropWhile (\<lambda>c. c = h) (re_sub_runs p [h] s) = re_sub_runs p [h] (dropWhile p s)" .
  have "rstrip (\<lambda>c. c = h) (re_sub_runs p [h] (dropWhile p s))
          = rstrip p (re_sub_runs p [h] (dropWhile p s))"
    by (rule rstrip_cong) (use assms sub_runs_sep_iff in auto)
  also have "\<dots> = re_sub_runs p [h] (rstrip p (dropWhile p s))"
    by (rule sub_runs_R [of p h, OF assms])
  finally show ?thesis
    unfolding strip_chars_single l .
qed

lemma strip_weaker:
  assumes qp: "\<And>c. q c \<Longrightarrow> p c"
  shows "rstrip p (dropWhile p (rstrip q (dropWhile q s))) = rstrip p (dropWhile p s)"
proof -
  define t where "t = dropWhile q s"
  define r where "r = rstrip q t"
  define u where "u = rev (takeWhile q (rev t))"
  have t: "t = r @ u" unfolding r_def u_def by (simp add: rstrip_decomp)
  have u: "\<forall>c\<in>set u. p c"
    unfolding u_def using qp by (auto dest: set_takeWhileD)
  have "rstrip p (dropWhile p r) = rstrip p (dropWhile p t)"
  proof (cases "\<forall>c\<in>set r. p c")
    case True
    then have a: "dropWhile p r = []" by simp
    have b: "dropWhile p t = []" using True u by (simp add: t)
    show ?thesis unfolding a b ..
  next
    case False
    then have "dropWhile p t = dropWhile p r @ u" by (auto simp: t dropWhile_append)
    then show ?thesis using u by (simp add: rstrip_append_all)
  qed
  moreover have "dropWhile p t = dropWhile p s"
    unfolding t_def by (rule dropWhile_weaker) (rule qp)
  ultimately show ?thesis by (simp add: r_def t_def)
qed

lemma sep_hyphen: "space_or_hyphen (CHR ''-'')"
  by (simp add: space_or_hyphen_def)

lemma generate_slug_normal_form:
  "generate_slug nm =
     re_sub_runs space_or_hyphen ''-''
       (rstrip space_or_hyphen (dropWhile space_or_hyphen
          (filter (\<lambda>c. \<not> not_word_space_hyphen c) (lower nm))))"
proof (cases "nm = []")
  case True
  then show ?thesis by (simp add: generate_slug_def lower_def rstrip_Nil)
next
  case False
  have "\<And>c. isspace c \<Longrightarrow> space_or_hyphen c" by (simp add: space_or_hyphen_def)
  then show ?thesis
    using False
    by (simp add: generate_slug_def Let_def strip_def lstrip_def re_sub_each_delete
        strip_chars_sub_runs [of space_or_hyphen "CHR ''-''", OF sep_hyphen] strip_weaker)
qed

lemma generate_slug_eq_spec: "generate_slug nm = slug_spec nm"
proof -
  have k: "(\<lambda>c. isalnum c \<or> c = CHR ''_'' \<or> isspace c \<or> c = CHR ''-'') = (\<lambda>c. \<not> not_word_space_hyphen c)"
    by (auto simp: not_word_space_hyphen_def word_char_def)
  have s: "(\<lambda>c. isspace c \<or> c = CHR ''-'') = space_or_hyphen"
    by (auto simp: space_or_hyphen_def)
  show ?thesis
    unfolding slug_spec_def Let_def k s collapse_runs_eq lstrip_def
      strip_chars_single [symmetric]
    by (simp only: generate_slug_normal_form strip_chars_sub_runs [of space_or_hyphen "CHR ''-''", OF sep_hyphen])
qed

lemma set_rstrip: "set (rstrip p s) \<subseteq> set s"
  unfolding rstrip_def by (metis set_dropWhileD set_rev subsetI)

lemma lower_char_hyphen: "lower_char (CHR ''-'') = CHR ''-''"
  by (simp add: lower_char_def code_point_def)

lemma keep_hyphen: "\<not> not_word_space_hyphen (CHR ''-'')"
  by (simp add: not_word_space_hyphen_def)

lemma generate_slug_chars:
  assumes "c \<in> set (generate_slug nm)"
  shows "lower_char c = c \<and> \<not> not_word_space_hyphen c"
proof -
  let ?Y = "filter (\<lambda>c. \<not> not_word_space_hyphen c) (lower nm)"
  from assms have "c \<in> set (rstrip space_or_hyphen (dropWhile space_or_hyphen ?Y)) \<or> c = CHR ''-''"
    unfolding generate_slug_normal_form
    using set_sub_runs [of space_or_hyphen "CHR ''-''"] by auto
  moreover have "set (rstrip space_or_hyphen (dropWhile space_or_hyphen ?Y)) \<subseteq> set ?Y"
    by (rule subset_trans [OF set_rstrip]) (auto dest: set_dropWhileD)
  ultimately have "c \<in> set ?Y \<or> c = CHR ''-''"
    by blast
  then show ?thesis
    by (auto simp: lower_def lower_char_idem lower_char_hyphen keep_hyphen)
qed

lemma generate_slug_idem: "generate_slug (generate_slug nm) = generate_slug nm"
proof -
  let ?p = space_or_hyphen
  let ?C = "re_sub_runs ?p ''-''"
  let ?Y = "filter (\<lambda>c. \<not> not_word_space_hyphen c) (lower nm)"
  let ?Z = "rstrip ?p (dropWhile ?p ?Y)"
  have nf: "generate_slug nm = ?C ?Z" by (rule generate_slug_normal_form)
  have lo: "lower (generate_slug nm) = generate_slug nm"
    unfolding lower_def by (rule map_idI) (simp add: generate_slug_chars)
  have fi: "filter (\<lambda>c. \<not> not_word_space_hyphen c) (generate_slug nm) = generate_slug nm"
    by (rule filter_True) (simp add: generate_slug_chars)
  have "generate_slug (generate_slug nm) = ?C (rstrip ?p (dropWhile ?p (generate_slug nm)))"
    by (simp only: generate_slug_normal_form [of "generate_slug nm"] lo fi)
  also have "\<dots> = ?C (rstrip ?p (dropWhile ?p (?C ?Z)))"
    by (simp only: nf)
  also have "\<dots> = ?C (?C (rstrip ?p (dropWhile ?p ?Z)))"
    by (simp only: sub_runs_L [of ?p "CHR ''-''", OF sep_hyphen]
        sub_runs_R [of ?p "CHR ''-''", OF sep_hyphen])
  also have "\<dots> = ?C (rstrip ?p (dropWhile ?p ?Z))"
    by (rule sub_runs_idem [of ?p "CHR ''-''", OF sep_hyphen])
  also have "rstrip ?p (dropWhile ?p ?Z) = ?Z"
    by (rule strip_weaker) assumption
  finally show ?thesis by (simp only: nf)
qed

section \<open>Properties of extraction\<close>

lemma process_item_out_of_range:
  "length links \<le> i \<Longrightarrow> process_item uj links i item = Skipped (Warning_skipping i)"
  by (simp add: process_item_def Let_def)

lemma process_item_no_image:
  "soup_find item ''img'' None = None \<Longrightarrow> process_item uj links i item = Skipped (Warning_skipping i)"
  by (simp add: process_item_def Let_def)

lemma process_item_in_range:
  assumes "i < length links" and "soup_find item ''img'' None = Some img"
  shows "process_item uj links i item =
     (case record_as_built uj img (links ! i) of
        Inl e \<Rightarrow> Raised e
      | Inr None \<Rightarrow> Skipped (Warning_no_valid_image_url (strip (tag_get img ''alt'' ''Unknown Watch'')))
      | Inr (Some w) \<Rightarrow> Appended w)"
  using assms
  by (simp add: process_item_def record_as_built_def build_record_def tag_get_def Let_def
      split: sum.splits option.splits)

lemma watch_loop_append:
  "watch_loop uj links i (xs @ ys) ws lg =
     (case watch_loop uj links i xs ws lg of
        (Inl e, lg') \<Rightarrow> (Inl e, lg')
      | (Inr ws', lg') \<Rightarrow> watch_loop uj links (i + length xs) ys ws' lg')"
  by (induction xs arbitrary: i ws lg) (auto split: step.splits prod.splits sum.splits)

lemma watch_loop_out_of_range:
  "length links \<le> i \<Longrightarrow>
   watch_loop uj links i ys ws lg = (Inr ws, lg @ map Warning_skipping [i..<i + length ys])"
proof (induction ys arbitrary: i lg)
  case Nil
  then show ?case by simp
next
  case (Cons y ys)
  have "[i..<Suc (i + length ys)] = i # [Suc i..<Suc i + length ys]"
    by (simp add: upt_rec)
  with Cons show ?case
    by (simp add: process_item_out_of_range)
qed

lemma watch_loop_collect:
  "fst (watch_loop uj links i items ws lg) =
     (case collect (record_as_built uj) (zip items (drop i links)) of
        Inl e \<Rightarrow> Inl e
      | Inr rs \<Rightarrow> Inr (ws @ rs))"
proof (induction items arbitrary: i ws lg)
  case Nil
  then show ?case by simp
next
  case (Cons item items)
  show ?case
  proof (cases "i < length links")
    case False
    then have "drop i links = []" by simp
    with False Cons [of "Suc i"] show ?thesis
      by (simp add: process_item_out_of_range)
  next
    case True
    then have d: "drop i links = links ! i # drop (Suc i) links"
      by (simp add: Cons_nth_drop_Suc)
    show ?thesis
    proof (cases "soup_find item ''img'' None")
      case None
      with Cons [of "Suc i"] d show ?thesis
        by (simp add: process_item_no_image)
    next
      case (Some img)
      with True Cons [of "Suc i"] d show ?thesis
        by (simp add: process_item_in_range split: sum.splits option.splits)
    qed
  qed
qed

lemma extract_body_collect:
  "fst (extract_body uj (Inr soup) links) =
     (case soup_find soup ''div'' (Some ''flex space-x-4 min-h-[60px]'') of
        None \<Rightarrow> Inr []
      | Some c \<Rightarrow>
          collect (record_as_built uj) (zip (soup_find_all c ''div'' (Some ''inline-block'')) links))"
proof (cases "soup_find soup ''div'' (Some ''flex space-x-4 min-h-[60px]'')")
  case None
  then show ?thesis by (simp add: extract_body_def)
next
  case (Some c)
  let ?items = "soup_find_all c ''div'' (Some ''inline-block'')"
  define lg0 where "lg0 =
    (if length ?items \<noteq> length links
     then [Info_found (length ?items), Warning_mismatch (length ?items) (length links)]
     else [Info_found (length ?items)])"
  obtain r lg' where wl: "watch_loop uj links 0 ?items [] lg0 = (r, lg')"
    by (cases "watch_loop uj links 0 ?items [] lg0")
  have r: "r = (case collect (record_as_built uj) (zip ?items links) of
                  Inl e \<Rightarrow> Inl e | Inr rs \<Rightarrow> Inr rs)"
    using watch_loop_collect [of uj links 0 ?items "[]" lg0] wl by (auto split: sum.splits)
  have "extract_body uj (Inr soup) links =
          (case watch_loop uj links 0 ?items [] lg0 of
             (Inl e, lg) \<Rightarrow> (Inl e, lg)
           | (Inr ws, lg) \<Rightarrow> (Inr ws, lg @ [Info_extracted (length ws)]))"
    using Some unfolding lg0_def by (simp add: extract_body_def Let_def)
  then show ?thesis
    using Some r wl by (simp split: sum.splits)
qed

lemma extract_watch_data_body:
  "extract_watch_data uj html links =
     (case fst (extract_body uj html links) of Inl e \<Rightarrow> [] | Inr ws \<Rightarrow> ws)"
  by (simp add: extract_watch_data_def extract_watch_data_logged_def split: prod.splits sum.splits)

lemma extract_watch_data_collect:
  "extract_watch_data uj (Inr soup) links =
     (case soup_find soup ''div'' (Some ''flex space-x-4 min-h-[60px]'') of
        None \<Rightarrow> []
      | Some c \<Rightarrow>
          (case collect (record_as_built uj) (zip (soup_find_all c ''div'' (Some ''inline-block'')) links) of
             Inl e \<Rightarrow> []
           | Inr ws \<Rightarrow> ws))"
  by (simp add: extract_watch_data_body extract_body_collect split: option.splits)

lemma extract_body_loop:
  assumes "soup_find soup ''div'' (Some ''flex space-x-4 min-h-[60px]'') = Some c"
    and "items = soup_find_all c ''div'' (Some ''inline-block'')"
  shows "extract_body uj (Inr soup) links =
     (case watch_loop uj links 0 items []
             (if length items \<noteq> length links
              then [Info_found (length items), Warning_mismatch (length items) (length links)]
              else [Info_found (length items)]) of
        (Inl e, lg) \<Rightarrow> (Inl e, lg)
      | (Inr ws, lg) \<Rightarrow> (Inr ws, lg @ [Info_extracted (length ws)]))"
  using assms by (simp add: extract_body_def Let_def)

lemma watch_loop_beyond_links:
  assumes "length links \<le> length items"
  shows "watch_loop uj links 0 items [] lg =
     (case watch_loop uj links 0 (take (length links) items) [] lg of
        (Inl e, lg') \<Rightarrow> (Inl e, lg')
      | (Inr ws, lg') \<Rightarrow> (Inr ws, lg' @ map Warning_skipping [length links..<length items]))"
proof -
  let ?n = "length links"
  have "watch_loop uj links 0 items [] lg
          = watch_loop uj links 0 (take ?n items @ drop ?n items) [] lg"
    by simp
  also have "\<dots> =
     (case watch_loop uj links 0 (take ?n items) [] lg of
        (Inl e, lg') \<Rightarrow> (Inl e, lg')
      | (Inr ws, lg') \<Rightarrow> watch_loop uj links (0 + length (take ?n items)) (drop ?n items) ws lg')"
    by (rule watch_loop_append)
  also have "\<dots> =
     (case watch_loop uj links 0 (take ?n items) [] lg of
        (Inl e, lg') \<Rightarrow> (Inl e, lg')
      | (Inr ws, lg') \<Rightarrow> (Inr ws, lg' @ map Warning_skipping [?n..<length items]))"
    using assms by (simp add: watch_loop_out_of_range min_def split: prod.splits sum.splits)
  finally show ?thesis .
qed

lemma build_record_complete:
  "record_as_built uj img lnk = Inr (Some w) \<Longrightarrow> complete_watch w"
  by (auto simp: record_as_built_def build_record_def complete_watch_def Let_def
      split: sum.splits if_splits)

lemma collect_complete:
  "collect (record_as_built uj) ps = Inr ws \<Longrightarrow> list_all complete_watch ws"
proof (induction ps arbitrary: ws)
  case Nil
  then show ?case by simp
next
  case (Cons p ps)
  obtain item lnk where p: "p = (item, lnk)" by (cases p)
  from Cons.prems Cons.IH show ?case
    unfolding p
    by (auto split: option.splits sum.splits dest: build_record_complete)
qed

lemma extract_watch_data_complete:
  "list_all complete_watch (extract_watch_data uj html links)"
proof (cases html)
  case (Inl e)
  then show ?thesis
    by (simp add: extract_watch_data_body extract_body_def)
next
  case (Inr soup)
  then show ?thesis
    by (auto simp: extract_watch_data_collect split: option.splits sum.splits
        dest: collect_complete)
qed

lemma descendants_document_of:
  "descendants (document_of items) = example_container items # concat (map node_tags items)"
  by (simp add: document_of_def example_container_def)

lemma soup_find_document_of:
  "soup_find (document_of items) ''div'' (Some ''flex space-x-4 min-h-[60px]'')
     = Some (example_container items)"
  by (simp add: soup_find_def soup_find_all_def descendants_document_of)
     (simp add: example_container_def class_matches_def)

lemma collect_total:
  assumes "\<And>b u. \<exists>r. uj b u = Inr r"
  shows "\<exists>ws. collect (record_as_built uj) ps = Inr ws"
proof (induction ps)
  case Nil
  then show ?case by simp
next
  case (Cons p ps)
  obtain item lnk where p: "p = (item, lnk)" by (cases p)
  have r: "\<exists>r. record_as_built uj img lnk = Inr r" for img
  proof -
    let ?src = "strip (case tag_attrs img ''src'' of None \<Rightarrow> [] | Some a \<Rightarrow> a)"
    from assms obtain x where "uj ''https://www.shopar.ai'' ?src = Inr x"
      by blast
    then show ?thesis
      by (simp add: record_as_built_def build_record_def Let_def)
  qed
  from Cons obtain ws where ws: "collect (record_as_built uj) ps = Inr ws"
    by blast
  show ?case
  proof (cases "soup_find item ''img'' None")
    case None
    with ws p show ?thesis by simp
  next
    case (Some img)
    from r [of img] obtain x where "record_as_built uj img lnk = Inr x"
      by blast
    with Some ws p show ?thesis by simp
  qed
qed

lemma extract_body_total:
  assumes "\<And>b u. \<exists>r. uj b u = Inr r"
  shows "\<exists>ws. fst (extract_body uj (Inr soup) links) = Inr ws"
  using collect_total [OF assms]
  by (simp add: extract_body_collect split: option.splits)

section \<open>Properties of the handlers and of persistence\<close>

lemma strip_lower: "strip (lower s) = lower (strip s)"
proof -
  have c: "isspace \<circ> lower_char = isspace"
    by (auto simp: isspace_lower_char)
  have l: "dropWhile isspace (map lower_char t) = map lower_char (dropWhile isspace t)" for t
    by (simp add: dropWhile_map c)
  show ?thesis
    by (simp add: strip_def lstrip_def rstrip_def lower_def l rev_map)
qed

lemma Product_kwargs_complete:
  "complete_watch w \<Longrightarrow>
   Product_kwargs w = Inr \<lparr>name = the (w ''name''), image_url = the (w ''image_url''),
                             link = the (w ''link''), slug = w ''slug''\<rparr>"
  by (cases "w ''name''"; cases "w ''image_url''"; cases "w ''link''"; cases "w ''slug''")
     (simp_all add: complete_watch_def Product_kwargs_def)

lemma by_name_loop_find:
  "list_all complete_watch ws \<Longrightarrow>
   by_name_loop q ws =
     map_option Product_kwargs (List.find (\<lambda>w. strip (lower (the (w ''name''))) = q) ws)"
proof (induction ws)
  case Nil
  then show ?case by simp
next
  case (Cons w ws)
  then have "complete_watch w"
    by simp
  then obtain n where "w ''name'' = Some n"
    by (cases "w ''name''") (simp_all add: complete_watch_def)
  with Cons show ?case by simp
qed

lemma Product_of_json_dump: "Product_of_json (dump_Product p) = Inr p"
  by (cases "slug p") (simp_all add: Product_of_json_def dump_Product_def json_string_def)

lemma Products_of_json_dump: "Products_of_json (map dump_Product ps) = Inr ps"
  by (induction ps) (simp_all add: Product_of_json_dump)

lemma ProductDetails_of_json_dump:
  "ProductDetails_of_json (model_dump_exclude_none (A_ProductDetails ps)) = Inr ps"
  by (simp add: ProductDetails_of_json_def Products_of_json_dump)

lemma null_free_dump_Product: "null_free (dump_Product p)"
  by (cases "slug p") (simp_all add: dump_Product_def)

lemma null_free_model_dump: "null_free (model_dump_exclude_none m)"
  by (cases m) (simp_all add: null_free_dump_Product list_all_iff)

lemma json_keys_dump_Product:
  "json_keys (dump_Product p) =
     [''name'', ''image_url'', ''link''] @ (case slug p of None \<Rightarrow> [] | Some s \<Rightarrow> [''slug''])"
  by (cases "slug p") (simp_all add: json_keys_def dump_Product_def)

lemma save_data_written:
  "save_data env m f w = (r, w') \<Longrightarrow>
   (r = Inr () \<and> written w' = written w @ [(f, model_dump_exclude_none m)])
   \<or> (r = Inl OSError \<and> written w' = written w)"
  by (auto simp: save_data_def Let_def split: if_splits)

lemma save_each_written:
  "save_each env ws saved w = (r, w') \<Longrightarrow>
   \<exists>new. written w' = written w @ new
     \<and> list_all (\<lambda>(f, j). \<exists>x \<in> set ws. \<exists>p. Product_kwargs x = Inr p
                             \<and> j = model_dump_exclude_none (A_Product p)) new"
proof (induction ws arbitrary: saved w)
  case Nil
  then show ?case by simp
next
  case (Cons x xs)
  show ?case
  proof (cases "x ''name''")
    case None
    with Cons.prems show ?thesis by simp
  next
    case (Some n)
    show ?thesis
    proof (cases "generate_safe_filename env n ''watch''")
      case (Inl e)
      with Some Cons.prems show ?thesis by simp
    next
      case (Inr f)
      show ?thesis
      proof (cases "Product_kwargs x")
        case (Inl e)
        with Some \<open>generate_safe_filename env n ''watch'' = Inr f\<close> Cons.prems
        show ?thesis by simp
      next
        case p: (Inr p)
        obtain r1 w1 where sd: "save_data env (A_Product p) f w = (r1, w1)"
          by (cases "save_data env (A_Product p) f w")
        from save_data_written [OF sd] show ?thesis
        proof
          assume ok: "r1 = Inr () \<and> written w1 = written w @ [(f, model_dump_exclude_none (A_Product p))]"
          with Some Inr p sd Cons.prems
          have "save_each env xs (saved @ [f]) w1 = (r, w')" by simp
          from Cons.IH [OF this] obtain new where new: "written w' = written w1 @ new"
            "list_all (\<lambda>(f, j). \<exists>x \<in> set xs. \<exists>p. Product_kwargs x = Inr p
                             \<and> j = model_dump_exclude_none (A_Product p)) new"
            by blast
          from new ok p
          have "written w' = written w @ ((f, model_dump_exclude_none (A_Product p)) # new)"
            by simp
          moreover have "list_all (\<lambda>(f, j). \<exists>y \<in> set (x # xs). \<exists>p. Product_kwargs y = Inr p
                             \<and> j = model_dump_exclude_none (A_Product p))
                           ((f, model_dump_exclude_none (A_Product p)) # new)"
            using new(2) p by (auto simp: list_all_iff)
          ultimately show ?thesis by blast
        next
          assume "r1 = Inl OSError \<and> written w1 = written w"
          with Some Inr p sd Cons.prems have "written w' = written w" by auto
          then show ?thesis by simp
        qed
      qed
    qed
  qed
qed

lemma generate_safe_filename_value:
  "generate_safe_filename env nm category =
     (let f = ''data/''
              @ lower (map (\<lambda>c. if c = CHR '' '' then CHR ''_'' else c)
                         (filter (\<lambda>c. isalnum c \<or> c = CHR ''_'' \<or> isspace c \<or> c = CHR ''-'') nm))
              @ ''_'' @ category @ ''.json''
      in if makedirs_ok env (dirname f) then Inr f else Inl OSError)"
proof -
  have "(\<lambda>c. \<not> not_word_space_hyphen c) = (\<lambda>c. isalnum c \<or> c = CHR ''_'' \<or> isspace c \<or> c = CHR ''-'')"
    by (auto simp: not_word_space_hyphen_def word_char_def)
  then show ?thesis
    by (simp add: generate_safe_filename_def replace_def re_sub_each_delete Let_def)
qed

lemma generate_safe_filename_spaces_only:
  assumes "\<forall>c \<in> set nm. isspace c \<longrightarrow> c = CHR '' ''" and "makedirs_ok env (dirname (safe_filename_spec nm category))"
  shows "generate_safe_filename env nm category = Inr (safe_filename_spec nm category)"
proof -
  let ?kept = "filter (\<lambda>c. isalnum c \<or> c = CHR ''_'' \<or> isspace c \<or> c = CHR ''-'') nm"
  have sp: "isspace (CHR '' '')" by (simp add: isspace_def code_point_def)
  have m: "map (\<lambda>c. if c = CHR '' '' then CHR ''_'' else c) ?kept
          = map (\<lambda>c. if isspace c then CHR ''_'' else c) ?kept"
    by (rule map_cong) (use assms(1) sp in auto)
  have eq: "''data/'' @ lower (map (\<lambda>c. if c = CHR '' '' then CHR ''_'' else c) ?kept)
              @ ''_'' @ category @ ''.json'' = safe_filename_spec nm category"
    unfolding safe_filename_spec_def Let_def m ..
  show ?thesis
    unfolding generate_safe_filename_value Let_def eq using assms(2) by simp
qed

section \<open>The claims about the slug generator\<close>

text \<open>
  Claim C3. For every input string, \<open>generate_slug\<close> returns the result of the algorithm of
  the specification: lowercase the text, remove every character that is not alphanumeric,
  underscore, whitespace or hyphen, collapse every run of whitespace or hyphen characters
  into a single hyphen, and strip leading and trailing hyphens (\<open>slug_spec\<close>). The empty
  string yields the empty string, and the slug of "Hublot Mp-10 Tourbillon" is
  "hublot-mp-10-tourbillon". The function is total: on a string no operation of lines 45--49
  can raise, and the model accordingly has no error value. The program also trims
  whitespace between the removal and the collapse (line 47), which the specification does
  not mention; the theorem shows that this changes no result.
\<close>

theorem generate_slug_follows_spec:
  "generate_slug nm = slug_spec nm
   \<and> generate_slug [] = []
   \<and> generate_slug ''Hublot Mp-10 Tourbillon'' = ''hublot-mp-10-tourbillon''"
proof -
  have "generate_slug nm = slug_spec nm"
    by (rule generate_slug_eq_spec)
  moreover have "generate_slug [] = []"
    by (simp add: generate_slug_def)
  moreover have "generate_slug ''Hublot Mp-10 Tourbillon'' = ''hublot-mp-10-tourbillon''"
    by code_simp
  ultimately show ?thesis by blast
qed

theorem generate_slug_follows_spec_witness:
  "generate_slug ''  --Cafe & Co__9  - '' = slug_spec ''  --Cafe & Co__9  - ''
   \<and> slug_spec ''  --Cafe & Co__9  - '' = ''cafe-co__9''"
proof -
  have "generate_slug ''  --Cafe & Co__9  - '' = slug_spec ''  --Cafe & Co__9  - ''"
    using generate_slug_follows_spec [of "''  --Cafe & Co__9  - ''"] by blast
  moreover have "slug_spec ''  --Cafe & Co__9  - '' = ''cafe-co__9''"
    by code_simp
  ultimately show ?thesis by blast
qed

text \<open>
  Claim C7. \<open>generate_slug\<close> is idempotent, \<open>generate_slug (generate_slug nm) = generate_slug nm\<close>
  for every input, and deterministic: equal inputs give equal outputs (the function reads
  nothing but its argument).
\<close>

theorem generate_slug_idempotent_deterministic:
  "generate_slug (generate_slug nm) = generate_slug nm
   \<and> (nm' = nm \<longrightarrow> generate_slug nm' = generate_slug nm)"
  by (simp add: generate_slug_idem)

theorem generate_slug_idempotent_deterministic_witness:
  "generate_slug ''  Hublot -- MP 10! '' = ''hublot-mp-10''
   \<and> generate_slug (generate_slug ''  Hublot -- MP 10! '') = generate_slug ''  Hublot -- MP 10! ''
   \<and> generate_slug ''hublot-mp-10'' = ''hublot-mp-10''"
proof -
  have a: "generate_slug ''  Hublot -- MP 10! '' = ''hublot-mp-10''"
    by code_simp
  have b: "generate_slug (generate_slug ''  Hublot -- MP 10! '') = generate_slug ''  Hublot -- MP 10! ''"
    using generate_slug_idempotent_deterministic [of "''  Hublot -- MP 10! ''" "''  Hublot -- MP 10! ''"]
    by blast
  from a b show ?thesis by simp
qed

section \<open>The claims about extraction\<close>

text \<open>
  Claim C1, as stated: an image source that lacks an absolute-URL scheme is resolved against
  the base origin. The program tests something else (line 131): it resolves a source that is
  not empty and does not start with the characters \<^verbatim>\<open>http\<close>. The source \<^verbatim>\<open>httpfoo.png\<close> has no
  scheme and starts with \<^verbatim>\<open>http\<close>: the program keeps it as the image URL, where the claim
  has \<^verbatim>\<open>https://www.shopar.ai/httpfoo.png\<close>.
\<close>

theorem resolve_without_scheme_counterexample:
  "\<not> has_url_scheme ''httpfoo.png''
   \<and> map fields_of
         (extract_watch_data urljoin_example
            (Inr (document_of [carousel_item ''httpfoo.png'' ''A''])) [''L''])
       = [(Some ''A'', Some ''httpfoo.png'', Some ''L'', Some ''a'')]
   \<and> (case collect (record_as_stated urljoin_example)
               (zip (soup_find_all (example_container [carousel_item ''httpfoo.png'' ''A''])
                       ''div'' (Some ''inline-block'')) [''L'']) of
          Inl e \<Rightarrow> []
        | Inr ws \<Rightarrow> map fields_of ws)
       = [(Some ''A'', Some ''https://www.shopar.ai/httpfoo.png'', Some ''L'', Some ''a'')]"
  by code_simp

text \<open>
  Claim C1, amended. When the document has the carousel container, extraction returns the
  records of the items paired with the links of their positions, in order, so that only the
  items whose index is within range of the links take part. An item without an image gives
  no record. For the others the label is the \<^verbatim>\<open>alt\<close> attribute, or "Unknown Watch" when it is
  absent, trimmed; the source is the \<^verbatim>\<open>src\<close> attribute trimmed; a source that is not empty
  and does not start with \<^verbatim>\<open>http\<close> is resolved with \<^verbatim>\<open>urljoin\<close> against
  \<^verbatim>\<open>https://www.shopar.ai\<close>; an item whose URL is then empty gives no record; otherwise
  the record has the label as name, the URL as image URL, the trimmed link of the position
  and the slug of the name (\<open>record_as_built\<close>). If \<^verbatim>\<open>urljoin\<close> raises for one of these
  items the result is empty (claim C4).
\<close>

theorem extraction_builds_records:
  assumes "soup_find soup ''div'' (Some ''flex space-x-4 min-h-[60px]'') = Some c"
  shows "extract_watch_data uj (Inr soup) links =
     (case collect (record_as_built uj) (zip (soup_find_all c ''div'' (Some ''inline-block'')) links) of
        Inl e \<Rightarrow> []
      | Inr ws \<Rightarrow> ws)"
  using assms by (simp add: extract_watch_data_collect)

theorem extraction_builds_records_witness:
  "soup_find (document_of example_items) ''div'' (Some ''flex space-x-4 min-h-[60px]'')
     = Some (example_container example_items)
   \<and> extract_watch_data urljoin_example (Inr (document_of example_items)) example_links =
       (case collect (record_as_built urljoin_example)
               (zip (soup_find_all (example_container example_items) ''div'' (Some ''inline-block''))
                  example_links) of
          Inl e \<Rightarrow> []
        | Inr ws \<Rightarrow> ws)
   \<and> map fields_of (extract_watch_data urljoin_example (Inr (document_of example_items)) example_links)
       = [(Some ''Big Bang'', Some ''https://www.shopar.ai/thumb/a.png'', Some ''l1'', Some ''big-bang''),
          (Some ''C'', Some ''http://h/c.png'', Some ''l3'', Some ''c'')]"
proof -
  have a: "soup_find (document_of example_items) ''div'' (Some ''flex space-x-4 min-h-[60px]'')
             = Some (example_container example_items)"
    by (rule soup_find_document_of)
  have b: "map fields_of
             (extract_watch_data urljoin_example (Inr (document_of example_items)) example_links)
       = [(Some ''Big Bang'', Some ''https://www.shopar.ai/thumb/a.png'', Some ''l1'', Some ''big-bang''),
          (Some ''C'', Some ''http://h/c.png'', Some ''l3'', Some ''c'')]"
    by code_simp
  from a b extraction_builds_records [OF a, of urljoin_example example_links]
  show ?thesis by blast
qed

text \<open>
  Claim C2. Extraction on the sample document of lines 70--96 with the eight links of lines
  99--108 yields exactly eight products, in the order of the document; the first has the
  name "Hublot MP-10 Tourbillon" and the slug "hublot-mp-10-tourbillon". No image source of
  the sample is resolved, so this holds whatever \<^verbatim>\<open>urljoin\<close> does.
\<close>

theorem sample_extraction:
  "map fields_of (extract_watch_data uj (Inr html_content) watch_links) =
  [(Some ''Hublot MP-10 Tourbillon'',
    Some ''https://dj5e08oeu5ym4.cloudfront.net/thumb/c2a36185-19be-48dc-80ca-a40cd1e930ce.jpg'',
    Some ''https://www.shopar.ai/collection/watches?product=66618cf59d3fb1edda45d3ba&mode=3d'',
    Some ''hublot-mp-10-tourbillon''),
   (Some ''Hublot Spirit Of Big Bang Full Magic Gold'',
    Some ''https://dj5e08oeu5ym4.cloudfront.net/thumb/34b97066-cf29-4941-9d0c-581084f5981e.png'',
    Some ''https://www.shopar.ai/collection/watches?product=65f48bb59ae86ec2a67a435d&mode=3d'',
    Some ''hublot-spirit-of-big-bang-full-magic-gold''),
   (Some ''Movado Alta Super Sub Sea Automatic'',
    Some ''https://dj5e08oeu5ym4.cloudfront.net/thumb/165c3844-6301-4398-b8fd-7b15f0032e16.jpg'',
    Some ''https://www.shopar.ai/collection/watches?product=657218fa3c333cddc7d2341c&mode=3d'',
    Some ''movado-alta-super-sub-sea-automatic''),
   (Some ''Swatch Obsidian Ink'',
    Some ''https://dj5e08oeu5ym4.cloudfront.net/thumb/12df7df7-fecd-412e-bea5-02e92c312408.webp'',
    Some ''https://www.shopar.ai/collection/watches?product=66ba01a114de953c80003cfc&mode=3d'',
    Some ''swatch-obsidian-ink''),
   (Some ''Swatch Caramellissima'',
    Some ''https://dj5e08oeu5ym4.cloudfront.net/thumb/eb5e18b9-400c-4c14-b752-86d2be88a482.avif'',
    Some ''https://www.shopar.ai/collection/watches?product=66ba06f314de953c8000719c&mode=3d'',
    Some ''swatch-caramellissima''),
   (Some ''Swatch Random Ghost'',
    Some ''https://dj5e08oeu5ym4.cloudfront.net/thumb/d670348a-0aee-4916-b011-a8943b1d7496.jpg'',
    Some ''https://www.shopar.ai/collection/watches?product=67129023c904b2a2777efe9d&mode=3d'',
    Some ''swatch-random-ghost''),
   (Some ''Swatch Up In Smoke'',
    Some ''https://dj5e08oeu5ym4.cloudfront.net/thumb/425b727b-c788-46b3-adb2-4cdfb9a39c2c.png'',
    Some ''https://www.shopar.ai/collection/watches?product=6712989ac904b2a2777f39ed&mode=3d'',
    Some ''swatch-up-in-smoke''),
   (Some ''Swatch Cobalt Lagoon'',
    Some ''https://dj5e08oeu5ym4.cloudfront.net/thumb/cd3708cc-75fc-4f43-a8b3-011b061dba36.webp'',
    Some ''https://www.shopar.ai/collection/watches?product=66ba071914de953c8000722f&mode=3d'',
    Some ''swatch-cobalt-lagoon'')]
   \<and> length (extract_watch_data uj (Inr html_content) watch_links) = 8
   \<and> hd (extract_watch_data uj (Inr html_content) watch_links) ''name'' = Some ''Hublot MP-10 Tourbillon''
   \<and> hd (extract_watch_data uj (Inr html_content) watch_links) ''slug'' = Some ''hublot-mp-10-tourbillon''"
  (is "?fields = ?expected \<and> ?len \<and> ?first_name \<and> ?first_slug")
proof -
  have f: "?fields = ?expected"
    by code_simp
  from f have n: "length ?fields = 8"
    by simp
  then have len: ?len
    by simp
  then obtain w ws where ws: "extract_watch_data uj (Inr html_content) watch_links = w # ws"
    by (cases "extract_watch_data uj (Inr html_content) watch_links") auto
  from f have "fields_of w = hd ?expected"
    unfolding ws by simp
  then have "?first_name \<and> ?first_slug"
    unfolding ws by (simp add: fields_of_def)
  with f len show ?thesis by blast
qed

text \<open>
  Claim C4. Extraction never raises: the model of \<^verbatim>\<open>extract_watch_data\<close> returns a list for
  every outcome of the parser and every list of links, and each way in which the \<^verbatim>\<open>try\<close>
  block can fail ends in the empty list and a log record. When the parser raises, the result
  is empty and the exception is logged; when the carousel container is absent, the result is
  empty and the condition is logged; and whenever an exception leaves the \<^verbatim>\<open>try\<close> block, the
  result is empty and the last log record is that exception. Nothing but the parser and
  \<^verbatim>\<open>urljoin\<close> can raise there: on a parsed document, with a \<^verbatim>\<open>urljoin\<close> that always
  returns, the block returns. Only exceptions of class \<^verbatim>\<open>Exception\<close> are in the model.
\<close>

theorem extraction_never_raises:
  "extract_watch_data_logged uj (Inl e) links = ([], [Error_extracting e])
   \<and> (soup_find soup ''div'' (Some ''flex space-x-4 min-h-[60px]'') = None \<longrightarrow>
        extract_watch_data_logged uj (Inr soup) links = ([], [Error_container_not_found]))
   \<and> (fst (extract_body uj html links) = Inl e' \<longrightarrow>
        extract_watch_data_logged uj html links
          = ([], snd (extract_body uj html links) @ [Error_extracting e']))
   \<and> ((\<forall>b u. \<exists>r. uj b u = Inr r) \<longrightarrow>
        (\<exists>ws. fst (extract_body uj (Inr soup) links) = Inr ws))"
proof -
  have "extract_watch_data_logged uj (Inl e) links = ([], [Error_extracting e])"
    by (simp add: extract_watch_data_logged_def extract_body_def)
  moreover have "soup_find soup ''div'' (Some ''flex space-x-4 min-h-[60px]'') = None \<longrightarrow>
        extract_watch_data_logged uj (Inr soup) links = ([], [Error_container_not_found])"
    by (simp add: extract_watch_data_logged_def extract_body_def)
  moreover have "fst (extract_body uj html links) = Inl e' \<longrightarrow>
        extract_watch_data_logged uj html links
          = ([], snd (extract_body uj html links) @ [Error_extracting e'])"
    by (simp add: extract_watch_data_logged_def split: prod.splits)
  moreover have "(\<forall>b u. \<exists>r. uj b u = Inr r) \<longrightarrow>
        (\<exists>ws. fst (extract_body uj (Inr soup) links) = Inr ws)"
    using extract_body_total [of uj soup links] by blast
  ultimately show ?thesis by blast
qed

theorem extraction_never_raises_witness:
  "extract_watch_data_logged urljoin_example (Inl ParserRejectedMarkup) example_links
     = ([], [Error_extracting ParserRejectedMarkup])
   \<and> soup_find (Tag ''[document]'' [] Map.empty [NavigableString ''no carousel''])
         ''div'' (Some ''flex space-x-4 min-h-[60px]'') = None
   \<and> extract_watch_data_logged urljoin_example
         (Inr (Tag ''[document]'' [] Map.empty [NavigableString ''no carousel''])) example_links
     = ([], [Error_container_not_found])
   \<and> fst (extract_body urljoin_example
         (Inr (document_of [carousel_item ''thumb/a.png'' ''A'', carousel_item ''//['' ''B''])) example_links)
     = Inl ValueError
   \<and> extract_watch_data_logged urljoin_example
         (Inr (document_of [carousel_item ''thumb/a.png'' ''A'', carousel_item ''//['' ''B''])) example_links
     = ([], [Info_found 2, Warning_mismatch 2 3, Error_extracting ValueError])"
proof -
  let ?empty = "Tag ''[document]'' [] Map.empty [NavigableString ''no carousel'']"
  let ?bad = "Inr (document_of [carousel_item ''thumb/a.png'' ''A'', carousel_item ''//['' ''B''])"
  have none: "soup_find ?empty ''div'' (Some ''flex space-x-4 min-h-[60px]'') = None"
    by (simp add: soup_find_def soup_find_all_def)
  have "raised (fst (extract_body urljoin_example ?bad example_links)) = Some ValueError"
    by code_simp
  then have raised: "fst (extract_body urljoin_example ?bad example_links) = Inl ValueError"
    by (cases "fst (extract_body urljoin_example ?bad example_links)") (simp_all add: raised_def)
  have lg: "snd (extract_body urljoin_example ?bad example_links) = [Info_found 2, Warning_mismatch 2 3]"
    by code_simp
  note inst = extraction_never_raises
    [of urljoin_example ParserRejectedMarkup example_links ?empty ?bad ValueError]
  from inst have a: "extract_watch_data_logged urljoin_example (Inl ParserRejectedMarkup) example_links
     = ([], [Error_extracting ParserRejectedMarkup])"
    by blast
  from inst none have b: "extract_watch_data_logged urljoin_example (Inr ?empty) example_links
     = ([], [Error_container_not_found])"
    by blast
  from inst raised have "extract_watch_data_logged urljoin_example ?bad example_links
     = ([], snd (extract_body urljoin_example ?bad example_links) @ [Error_extracting ValueError])"
    by blast
  then have c: "extract_watch_data_logged urljoin_example ?bad example_links
     = ([], [Info_found 2, Warning_mismatch 2 3, Error_extracting ValueError])"
    by (simp add: lg)
  from a none b raised c show ?thesis by blast
qed

text \<open>
  Claim C5. When the links are fewer than the discovered items, extraction does not stop at
  the mismatch: it logs the mismatch, runs the loop over the items within range of the links
  exactly as it would without the others, and then visits each item beyond the link count,
  which adds a skip record to the log and nothing to the result.
\<close>

theorem short_links_skip_later_items:
  assumes "soup_find soup ''div'' (Some ''flex space-x-4 min-h-[60px]'') = Some c"
    and "items = soup_find_all c ''div'' (Some ''inline-block'')"
    and "length links < length items"
  shows "extract_watch_data_logged uj (Inr soup) links =
     (case watch_loop uj links 0 (take (length links) items) []
             [Info_found (length items), Warning_mismatch (length items) (length links)] of
        (Inl e, lg) \<Rightarrow> ([], lg @ [Error_extracting e])
      | (Inr ws, lg) \<Rightarrow>
          (ws, lg @ map Warning_skipping [length links..<length items] @ [Info_extracted (length ws)]))"
proof -
  from assms(3) have le: "length links \<le> length items" and ne: "length items \<noteq> length links"
    by simp_all
  show ?thesis
    unfolding extract_watch_data_logged_def extract_body_loop [OF assms(1,2)]
      watch_loop_beyond_links [OF le]
    using ne by (simp split: prod.splits sum.splits)
qed

theorem short_links_skip_later_items_witness:
  "length example_links < length (soup_find_all (example_container example_items) ''div'' (Some ''inline-block''))
   \<and> map fields_of (fst (extract_watch_data_logged urljoin_example (Inr (document_of example_items)) example_links))
       = [(Some ''Big Bang'', Some ''https://www.shopar.ai/thumb/a.png'', Some ''l1'', Some ''big-bang''),
          (Some ''C'', Some ''http://h/c.png'', Some ''l3'', Some ''c'')]
   \<and> snd (extract_watch_data_logged urljoin_example (Inr (document_of example_items)) example_links)
       = [Info_found 4, Warning_mismatch 4 3, Warning_no_valid_image_url ''B'', Warning_skipping 3,
          Info_extracted 2]"
proof -
  let ?items = "soup_find_all (example_container example_items) ''div'' (Some ''inline-block'')"
  have n: "length example_links = 3" "length ?items = 4"
    by code_simp+
  then have short: "length example_links < length ?items"
    by simp
  let ?loop = "watch_loop urljoin_example example_links 0 (take (length example_links) ?items) []
       [Info_found (length ?items), Warning_mismatch (length ?items) (length example_links)]"
  have r: "returned_fields (fst ?loop) =
      Some [(Some ''Big Bang'', Some ''https://www.shopar.ai/thumb/a.png'', Some ''l1'', Some ''big-bang''),
            (Some ''C'', Some ''http://h/c.png'', Some ''l3'', Some ''c'')]"
    by code_simp
  have l: "snd ?loop = [Info_found 4, Warning_mismatch 4 3, Warning_no_valid_image_url ''B'']"
    by code_simp
  from r obtain ws where ws: "fst ?loop = Inr ws" "map fields_of ws =
        [(Some ''Big Bang'', Some ''https://www.shopar.ai/thumb/a.png'', Some ''l1'', Some ''big-bang''),
         (Some ''C'', Some ''http://h/c.png'', Some ''l3'', Some ''c'')]"
    by (cases "fst ?loop") (auto simp: returned_fields_def)
  from ws(1) l have loop:
    "?loop = (Inr ws, [Info_found 4, Warning_mismatch 4 3, Warning_no_valid_image_url ''B''])"
    by (cases ?loop) simp
  from arg_cong [OF ws(2), of length] have len: "length ws = 2"
    by simp
  have up: "[length example_links..<length ?items] = [3]"
    unfolding n by (simp add: upt_rec)
  have E: "extract_watch_data_logged urljoin_example (Inr (document_of example_items)) example_links =
     (case ?loop of
        (Inl e, lg) \<Rightarrow> ([], lg @ [Error_extracting e])
      | (Inr ws, lg) \<Rightarrow>
          (ws, lg @ map Warning_skipping [length example_links..<length ?items]
                 @ [Info_extracted (length ws)]))"
    by (rule short_links_skip_later_items [OF soup_find_document_of refl short])
  have "extract_watch_data_logged urljoin_example (Inr (document_of example_items)) example_links =
      (ws, [Info_found 4, Warning_mismatch 4 3, Warning_no_valid_image_url ''B'', Warning_skipping 3,
            Info_extracted 2])"
    unfolding E loop up by (simp add: len)
  with ws(2) short show ?thesis
    by simp
qed

text \<open>
  Claim C10. Every record that extraction returns has a name and a slug, and the slug is
  \<open>generate_slug\<close> of the name; so the product made of it has a slug that is not \<^verbatim>\<open>None\<close>,
  although the data model declares the field optional.
\<close>

theorem extracted_records_have_slug:
  "\<forall>w \<in> set (extract_watch_data uj html links).
     (\<exists>n. w ''name'' = Some n \<and> w ''slug'' = Some (generate_slug n))
     \<and> (\<exists>p. Product_kwargs w = Inr p \<and> slug p = Some (generate_slug (name p)))"
proof
  fix w assume "w \<in> set (extract_watch_data uj html links)"
  with extract_watch_data_complete [of uj html links] have "complete_watch w"
    by (simp add: list_all_iff)
  then show "(\<exists>n. w ''name'' = Some n \<and> w ''slug'' = Some (generate_slug n))
     \<and> (\<exists>p. Product_kwargs w = Inr p \<and> slug p = Some (generate_slug (name p)))"
    by (auto simp: complete_watch_def Product_kwargs_def split: option.splits)
qed

theorem extracted_records_have_slug_witness:
  "map (\<lambda>w. w ''slug'') (extract_watch_data urljoin_example (Inr (document_of example_items)) example_links)
     = [Some ''big-bang'', Some ''c'']
   \<and> list_all (\<lambda>w. \<exists>n. w ''name'' = Some n \<and> w ''slug'' = Some (generate_slug n))
        (extract_watch_data urljoin_example (Inr (document_of example_items)) example_links)"
proof -
  have "map (\<lambda>w. w ''slug'') (extract_watch_data urljoin_example (Inr (document_of example_items)) example_links)
     = [Some ''big-bang'', Some ''c'']"
    by code_simp
  moreover have "list_all (\<lambda>w. \<exists>n. w ''name'' = Some n \<and> w ''slug'' = Some (generate_slug n))
        (extract_watch_data urljoin_example (Inr (document_of example_items)) example_links)"
    using extracted_records_have_slug [of urljoin_example "Inr (document_of example_items)" example_links]
    by (simp add: list_all_iff)
  ultimately show ?thesis by blast
qed

section \<open>The claims about the handlers and persistence\<close>

text \<open>
  Claim C6. Find-by-name runs extraction. When extraction yields nothing it raises
  \<^verbatim>\<open>HTTPException\<close> with status 500. Otherwise it returns the first extracted product, in
  extraction order, whose name equals the requested name up to case and surrounding
  whitespace (\<open>same_name\<close>), and when no product matches it raises \<^verbatim>\<open>HTTPException\<close> with
  status 404 and a detail that quotes the requested name.
\<close>

theorem find_by_name_first_match:
  "get_watch_by_name uj html links query_name =
     (let watches = extract_watch_data uj html links in
      if watches = [] then HTTPException 500 ''Failed to process watch collection''
      else (case List.find (\<lambda>w. same_name (the (w ''name'')) query_name) watches of
              Some w \<Rightarrow>
                Response \<lparr>name = the (w ''name''), image_url = the (w ''image_url''),
                          link = the (w ''link''), slug = w ''slug''\<rparr>
            | None \<Rightarrow>
                HTTPException 404
                  (''Watch '' @ [CHR 0x27] @ query_name @ [CHR 0x27] @ '' not found'')))"
proof -
  let ?ws = "extract_watch_data uj html links"
  have all: "list_all complete_watch ?ws"
    by (rule extract_watch_data_complete)
  have pred: "(\<lambda>w. strip (lower (the (w ''name''))) = lower (strip query_name))
                = (\<lambda>w. same_name (the (w ''name'')) query_name)"
    by (simp add: same_name_def strip_lower)
  have loop: "by_name_loop (lower (strip query_name)) ?ws =
      map_option Product_kwargs (List.find (\<lambda>w. same_name (the (w ''name'')) query_name) ?ws)"
    using by_name_loop_find [OF all, of "lower (strip query_name)"] by (simp only: pred)
  show ?thesis
  proof (cases "List.find (\<lambda>w. same_name (the (w ''name'')) query_name) ?ws")
    case None
    with loop show ?thesis
      by (simp add: get_watch_by_name_def Let_def)
  next
    case (Some w)
    then have "w \<in> set ?ws"
      by (auto simp: find_Some_iff)
    with all have "complete_watch w"
      by (simp add: list_all_iff)
    with Some loop show ?thesis
      by (simp add: get_watch_by_name_def Let_def Product_kwargs_complete)
  qed
qed

theorem find_by_name_first_match_witness:
  "get_watch_by_name urljoin_example (Inr (document_of example_items)) example_links ''  big BANG''
     = Response \<lparr>name = ''Big Bang'', image_url = ''https://www.shopar.ai/thumb/a.png'',
                 link = ''l1'', slug = Some ''big-bang''\<rparr>
   \<and> get_watch_by_name urljoin_example (Inr (document_of example_items)) example_links ''B''
     = HTTPException 404 (''Watch '' @ [CHR 0x27] @ ''B'' @ [CHR 0x27] @ '' not found'')
   \<and> get_watch_by_name urljoin_example (Inr (document_of [])) example_links ''B''
     = HTTPException 500 ''Failed to process watch collection''"
proof -
  let ?html = "Inr (document_of example_items)"
  have ne: "(extract_watch_data urljoin_example ?html example_links = []) = False"
    by code_simp
  have e: "(extract_watch_data urljoin_example (Inr (document_of [])) example_links = []) = True"
    by code_simp
  have f1: "map_option fields_of
      (List.find (\<lambda>w. same_name (the (w ''name'')) ''  big BANG'')
         (extract_watch_data urljoin_example ?html example_links))
      = Some (Some ''Big Bang'', Some ''https://www.shopar.ai/thumb/a.png'', Some ''l1'', Some ''big-bang'')"
    by code_simp
  have f2: "map_option fields_of
      (List.find (\<lambda>w. same_name (the (w ''name'')) ''B'')
         (extract_watch_data urljoin_example ?html example_links)) = None"
    by code_simp
  from f1 obtain w where w:
    "List.find (\<lambda>w. same_name (the (w ''name'')) ''  big BANG'')
         (extract_watch_data urljoin_example ?html example_links) = Some w"
    "fields_of w = (Some ''Big Bang'', Some ''https://www.shopar.ai/thumb/a.png'', Some ''l1'', Some ''big-bang'')"
    by auto
  from f2 have n:
    "List.find (\<lambda>w. same_name (the (w ''name'')) ''B'')
         (extract_watch_data urljoin_example ?html example_links) = None"
    by simp
  have a: "get_watch_by_name urljoin_example ?html example_links ''  big BANG''
     = Response \<lparr>name = ''Big Bang'', image_url = ''https://www.shopar.ai/thumb/a.png'',
                 link = ''l1'', slug = Some ''big-bang''\<rparr>"
    unfolding find_by_name_first_match [of urljoin_example ?html example_links "''  big BANG''"]
    using ne w by (simp add: fields_of_def)
  have b: "get_watch_by_name urljoin_example ?html example_links ''B''
     = HTTPException 404 (''Watch '' @ [CHR 0x27] @ ''B'' @ [CHR 0x27] @ '' not found'')"
    unfolding find_by_name_first_match [of urljoin_example ?html example_links "''B''"]
    using ne n by simp
  have c: "get_watch_by_name urljoin_example (Inr (document_of [])) example_links ''B''
     = HTTPException 500 ''Failed to process watch collection''"
    unfolding find_by_name_first_match [of urljoin_example "Inr (document_of [])" example_links "''B''"]
    using e by simp
  from a b c show ?thesis by blast
qed

text \<open>
  Claim C8 says that the file name derivation replaces the remaining whitespace of the name
  with underscores. The program keeps every whitespace character (the class of line 53 has
  \<^verbatim>\<open>\s\<close>) and then replaces the space character only, so a tab, a line break or a
  no-break space of the name stays in the name of the file that the docstring calls safe.
  For the name "Big<TAB>Bang X-1!" and the category "watch" the program returns
  \<^verbatim>\<open>data/big<TAB>bang_x-1_watch.json\<close>, where the derivation of the claim gives
  \<^verbatim>\<open>data/big_bang_x-1_watch.json\<close>. The two agree on every name whose only whitespace is
  the space character (\<open>generate_safe_filename_spaces_only\<close>).
\<close>

theorem safe_filename_keeps_tab:
  "generate_safe_filename example_env (''Big'' @ [CHR 0x09] @ ''Bang X-1!'') ''watch''
     = Inr (''data/big'' @ [CHR 0x09] @ ''bang_x-1_watch.json'')
   \<and> safe_filename_spec (''Big'' @ [CHR 0x09] @ ''Bang X-1!'') ''watch''
     = ''data/big_bang_x-1_watch.json''"
  by code_simp

text \<open>
  Claim C9. The JSON that the Save operation writes for a product omits a field that holds
  \<^verbatim>\<open>None\<close>: the dump of a model holds no \<^verbatim>\<open>null\<close>, and the dump of a product whose slug is
  \<^verbatim>\<open>None\<close> has no \<^verbatim>\<open>slug\<close> key. Re-parsing the dump of a product gives the product back,
  and re-parsing the dump of a collection gives its products back. Every file that the Save
  operation writes holds the dump of the collection of the extracted products or the dump
  of one of them. The JSON is compared as a value: that \<^verbatim>\<open>json.load\<close> reads back what
  \<^verbatim>\<open>json.dump\<close> wrote is the library's part.
\<close>

theorem saved_json_round_trip:
  "Product_of_json (model_dump_exclude_none (A_Product p)) = Inr p
   \<and> ProductDetails_of_json (model_dump_exclude_none (A_ProductDetails ps)) = Inr ps
   \<and> null_free (model_dump_exclude_none m)
   \<and> (slug p = None \<longrightarrow> ''slug'' \<notin> set (json_keys (model_dump_exclude_none (A_Product p))))
   \<and> (save_watch_collection env uj html links w0 = (r, w) \<longrightarrow>
        (\<exists>new. written w = written w0 @ new
           \<and> list_all
               (\<lambda>(f, j).
                  (\<exists>qs. Products_kwargs (extract_watch_data uj html links) = Inr qs
                        \<and> j = model_dump_exclude_none (A_ProductDetails qs))
                  \<or> (\<exists>x \<in> set (extract_watch_data uj html links).
                        \<exists>q. Product_kwargs x = Inr q \<and> j = model_dump_exclude_none (A_Product q)))
               new))"
proof -
  let ?ws = "extract_watch_data uj html links"
  let ?ok = "\<lambda>(f, j).
                  (\<exists>qs. Products_kwargs ?ws = Inr qs \<and> j = model_dump_exclude_none (A_ProductDetails qs))
                  \<or> (\<exists>x \<in> set ?ws. \<exists>q. Product_kwargs x = Inr q \<and> j = model_dump_exclude_none (A_Product q))"
  have a: "Product_of_json (model_dump_exclude_none (A_Product p)) = Inr p"
    by (simp add: Product_of_json_dump)
  have b: "ProductDetails_of_json (model_dump_exclude_none (A_ProductDetails ps)) = Inr ps"
    by (rule ProductDetails_of_json_dump)
  have c: "null_free (model_dump_exclude_none m)"
    by (rule null_free_model_dump)
  have d: "slug p = None \<longrightarrow> ''slug'' \<notin> set (json_keys (model_dump_exclude_none (A_Product p)))"
    by (simp add: json_keys_dump_Product)
  have e: "\<exists>new. written w = written w0 @ new \<and> list_all ?ok new"
    if run: "save_watch_collection env uj html links w0 = (r, w)"
  proof -
    obtain lg where lg: "extract_watch_data_logged uj html links = (?ws, lg)"
      by (cases "extract_watch_data_logged uj html links") (simp add: extract_watch_data_def)
    define w1 where "w1 = w0\<lparr>records := records w0 @ lg\<rparr>"
    have w1: "written w1 = written w0"
      by (simp add: w1_def)
    show ?thesis
    proof (cases "?ws = []")
      case True
      with run lg have "w = w1"
        by (simp add: save_watch_collection_def w1_def)
      with w1 show ?thesis by simp
    next
      case ne: False
      show ?thesis
      proof (cases "generate_safe_filename env ''watch_collection'' ''watches''")
        case (Inl x)
        with run lg ne have "w = w1"
          by (simp add: save_watch_collection_def w1_def)
        with w1 show ?thesis by simp
      next
        case f: (Inr f)
        show ?thesis
        proof (cases "Products_kwargs ?ws")
          case (Inl x)
          with run lg ne f have "w = w1"
            by (simp add: save_watch_collection_def w1_def)
          with w1 show ?thesis by simp
        next
          case qs: (Inr qs)
          obtain r2 w2 where sd: "save_data env (A_ProductDetails qs) f w1 = (r2, w2)"
            by (cases "save_data env (A_ProductDetails qs) f w1")
          from save_data_written [OF sd] show ?thesis
          proof
            assume bad: "r2 = Inl OSError \<and> written w2 = written w1"
            with run lg ne f qs sd have "w = w2"
              by (simp add: save_watch_collection_def w1_def)
            with bad w1 show ?thesis by simp
          next
            assume ok: "r2 = Inr () \<and> written w2
                          = written w1 @ [(f, model_dump_exclude_none (A_ProductDetails qs))]"
            obtain r3 w3 where se: "save_each env ?ws [] w2 = (r3, w3)"
              by (cases "save_each env ?ws [] w2")
            from save_each_written [OF se] obtain new where new: "written w3 = written w2 @ new"
              "list_all (\<lambda>(f, j). \<exists>x \<in> set ?ws. \<exists>p. Product_kwargs x = Inr p
                             \<and> j = model_dump_exclude_none (A_Product p)) new"
              by blast
            from run lg ne f qs sd ok se have "w = w3"
              by (simp add: save_watch_collection_def w1_def split: sum.splits)
            with new ok w1 have "written w = written w0
                @ ((f, model_dump_exclude_none (A_ProductDetails qs)) # new)"
              by simp
            moreover have "list_all ?ok ((f, model_dump_exclude_none (A_ProductDetails qs)) # new)"
              using new(2) qs by (auto simp: list_all_iff)
            ultimately show ?thesis by blast
          qed
        qed
      qed
    qed
  qed
  from a b c d e show ?thesis by blast
qed

theorem saved_json_round_trip_witness:
  "slug \<lparr>name = ''A'', image_url = ''u'', link = ''l'', slug = None\<rparr> = None
   \<and> model_dump_exclude_none (A_Product \<lparr>name = ''A'', image_url = ''u'', link = ''l'', slug = None\<rparr>)
       = JObject [(''name'', JString ''A''), (''image_url'', JString ''u''), (''link'', JString ''l'')]
   \<and> Product_of_json
         (model_dump_exclude_none (A_Product \<lparr>name = ''A'', image_url = ''u'', link = ''l'', slug = None\<rparr>))
       = Inr \<lparr>name = ''A'', image_url = ''u'', link = ''l'', slug = None\<rparr>
   \<and> ''slug'' \<notin> set (json_keys
         (model_dump_exclude_none (A_Product \<lparr>name = ''A'', image_url = ''u'', link = ''l'', slug = None\<rparr>)))
   \<and> map (\<lambda>(f, j). (f, Product_of_json j))
         (tl (written (snd (save_watch_collection example_env urljoin_example
                              (Inr (document_of example_items)) example_links empty_world))))
       = [(''data/big_bang_watch.json'',
           Inr \<lparr>name = ''Big Bang'', image_url = ''https://www.shopar.ai/thumb/a.png'',
                 link = ''l1'', slug = Some ''big-bang''\<rparr>),
          (''data/c_watch.json'',
           Inr \<lparr>name = ''C'', image_url = ''http://h/c.png'', link = ''l3'', slug = Some ''c''\<rparr>)]
   \<and> (\<exists>new. written (snd (save_watch_collection example_env urljoin_example
                              (Inr (document_of example_items)) example_links empty_world))
               = written empty_world @ new
          \<and> length new = 3)"
proof -
  let ?p = "\<lparr>name = ''A'', image_url = ''u'', link = ''l'', slug = None\<rparr>"
  let ?run = "save_watch_collection example_env urljoin_example
                (Inr (document_of example_items)) example_links empty_world"
  note inst = saved_json_round_trip
    [of ?p "[]" "A_Product ?p" example_env urljoin_example "Inr (document_of example_items)"
        example_links empty_world "fst ?run" "snd ?run"]
  have s: "slug ?p = None"
    by simp
  have d: "model_dump_exclude_none (A_Product ?p)
       = JObject [(''name'', JString ''A''), (''image_url'', JString ''u''), (''link'', JString ''l'')]"
    by (simp add: dump_Product_def)
  from inst have rt: "Product_of_json (model_dump_exclude_none (A_Product ?p)) = Inr ?p"
    by blast
  from inst s have k: "''slug'' \<notin> set (json_keys (model_dump_exclude_none (A_Product ?p)))"
    by blast
  have files: "map (\<lambda>(f, j). (f, Product_of_json j)) (tl (written (snd ?run)))
       = [(''data/big_bang_watch.json'',
           Inr \<lparr>name = ''Big Bang'', image_url = ''https://www.shopar.ai/thumb/a.png'',
                 link = ''l1'', slug = Some ''big-bang''\<rparr>),
          (''data/c_watch.json'',
           Inr \<lparr>name = ''C'', image_url = ''http://h/c.png'', link = ''l3'', slug = Some ''c''\<rparr>)]"
    by code_simp
  have n: "length (written (snd ?run)) = 3"
    by code_simp
  from inst obtain new where new: "written (snd ?run) = written empty_world @ new"
    by auto
  with n have "length new = 3"
    by (simp add: empty_world_def)
  with new have e: "\<exists>new. written (snd ?run) = written empty_world @ new \<and> length new = 3"
    by blast
  from s d rt k files e show ?thesis
    by blast
qed

end
